theory Spec2Isabelle
  imports Complex_Main
begin

section \<open>Data model (src/App.tsx, lines 11-54)\<close>

text \<open>
  JavaScript numbers that hold coordinates, speeds and times are modelled as \<open>real\<close>
  (the idealisation of IEEE doubles: no rounding, no NaN); counters that only ever hold
  integers (score, ammo, explosion timer) are \<open>int\<close>, identities are \<open>nat\<close>.
  Record fields carry a prefix because Isabelle field names are global:
  \<open>m_\<close> Missile, \<open>e_\<close> Explosion, \<open>b_\<close> Building, \<open>p_\<close> Particle.
\<close>

definition TARGET_SCORE :: int where "TARGET_SCORE = 1000"
definition EXPLOSION_RADIUS :: real where "EXPLOSION_RADIUS = 40"
definition EXPLOSION_DURATION :: int where "EXPLOSION_DURATION = 60"
definition MISSILE_SPEED :: real where "MISSILE_SPEED = 4"
definition ENEMY_SPEED_MIN :: real where "ENEMY_SPEED_MIN = 0.5"
definition ENEMY_SPEED_MAX :: real where "ENEMY_SPEED_MAX = 1.5"

datatype side = SideLeft | SideCenter | SideRight

text \<open>\<open>INITIAL_AMMO = { left: 20, center: 40, right: 20 }\<close>: an object indexed by side.\<close>

fun INITIAL_AMMO :: "side \<Rightarrow> int" where
  "INITIAL_AMMO SideLeft = 20"
| "INITIAL_AMMO SideCenter = 40"
| "INITIAL_AMMO SideRight = 20"

record point =
  px :: real
  py :: real

record particle =
  p_x :: real
  p_y :: real
  p_vx :: real
  p_vy :: real
  p_life :: real
  p_color :: real  \<comment> \<open>the hue of the \<open>hsl(...)\<close> string\<close>

record missile =
  m_id :: nat
  m_start :: point
  m_current :: point
  m_target :: point
  m_speed :: real
  m_color :: string
  m_isEnemy :: bool

record explosion =
  e_x :: real
  e_y :: real
  e_radius :: real
  e_maxRadius :: real
  e_timer :: int
  e_id :: nat

datatype btype = City | Battery

record building =
  b_x :: real
  b_y :: real
  b_width :: real
  b_height :: real
  b_isDestroyed :: bool
  b_type :: btype
  b_id :: nat
  b_batterySide :: "side option"  \<comment> \<open>\<open>batterySide?\<close>: absent on cities\<close>

datatype difficulty = Easy | Medium | Hard
datatype phase = Menu | Playing | Won | Lost
datatype lang = En | Zh

text \<open>
  \<open>Math.random()\<close> returns a number in \<open>[0, 1)\<close>; the type of a draw carries that
  contract. The generator is a stream of draws and a cursor.
\<close>

typedef unit_real = "{r :: real. 0 \<le> r \<and> r < 1}"
  by (rule exI [of _ 0]) simp

setup_lifting type_definition_unit_real

lift_definition draw_half :: unit_real is "1 / 2 :: real"
  by simp

text \<open>
  The component's state: the React state variables (\<open>gameState\<close>, \<open>score\<close>, \<open>ammo\<close>,
  \<open>language\<close>, \<open>difficulty\<close>, \<open>showHelp\<close>), the refs (\<open>missilesRef\<close>, \<open>explosionsRef\<close>,
  \<open>buildingsRef\<close>, \<open>particlesRef\<close>, \<open>lastEnemySpawnRef\<close>, \<open>nextIdRef\<close>), the canvas size
  and the random generator. \<open>aiTip\<close> is presentation only and is left out.
\<close>

record app =
  gameState :: phase
  score :: int
  ammo :: "side \<Rightarrow> int"
  language :: lang
  difficulty :: difficulty
  showHelp :: bool
  missiles :: "missile list"
  explosions :: "explosion list"
  buildings :: "building list"
  particles :: "particle list"
  lastEnemySpawn :: real
  nextId :: nat
  canvasWidth :: real
  canvasHeight :: real
  rnd :: "nat \<Rightarrow> unit_real"
  rndIx :: nat

definition mathRandom :: "app \<Rightarrow> real \<times> app" where
  "mathRandom s = (Rep_unit_real (rnd s (rndIx s)), s\<lparr>rndIx := Suc (rndIx s)\<rparr>)"

section \<open>Difficulty modifiers (lines 118-124)\<close>

text \<open>The pair is \<open>(speedMult, spawnMult)\<close>.\<close>

fun getDifficultyModifiers :: "difficulty \<Rightarrow> real \<times> real" where
  "getDifficultyModifiers Easy = (0.7, 1.5)"
| "getDifficultyModifiers Hard = (1.3, 0.7)"
| "getDifficultyModifiers Medium = (1.0, 1.0)"

section \<open>Initialisation (lines 127-160)\<close>

definition city :: "real \<Rightarrow> real \<Rightarrow> nat \<Rightarrow> building" where
  "city spacing groundY i =
     \<lparr>b_x = 150 + (real i + 1) * spacing - 20, b_y = groundY - 20, b_width = 40, b_height = 20,
      b_isDestroyed = False, b_type = City, b_id = 3 + i, b_batterySide = None\<rparr>"

definition layout :: "real \<Rightarrow> real \<Rightarrow> building list" where
  "layout width height =
     (let groundY = height - 40;
          cityCount = 6;
          spacing = (width - 300) / (real cityCount + 1)
      in [\<lparr>b_x = 50, b_y = groundY - 30, b_width = 60, b_height = 30,
           b_isDestroyed = False, b_type = Battery, b_id = 0, b_batterySide = Some SideLeft\<rparr>,
          \<lparr>b_x = width / 2 - 40, b_y = groundY - 40, b_width = 80, b_height = 40,
           b_isDestroyed = False, b_type = Battery, b_id = 1, b_batterySide = Some SideCenter\<rparr>,
          \<lparr>b_x = width - 110, b_y = groundY - 30, b_width = 60, b_height = 30,
           b_isDestroyed = False, b_type = Battery, b_id = 2, b_batterySide = Some SideRight\<rparr>]
         @ map (city spacing groundY) [0 ..< cityCount])"

text \<open>
  \<open>initGame\<close> reads \<open>window.innerWidth\<close> and \<open>window.innerHeight\<close> (the two arguments),
  sizes the canvas, rebuilds the buildings, empties the other collections and resets
  score, ammo and the help flag. The canvas is mounted whenever it runs.
\<close>

definition initGame :: "real \<Rightarrow> real \<Rightarrow> app \<Rightarrow> app" where
  "initGame width height s =
     s\<lparr>canvasWidth := width, canvasHeight := height,
       buildings := layout width height,
       missiles := [], explosions := [], particles := [],
       score := 0, ammo := INITIAL_AMMO, showHelp := False\<rparr>"

section \<open>Spawning an enemy (lines 162-183)\<close>

definition center :: "building \<Rightarrow> point" where
  "center b = \<lparr>px = b_x b + b_width b / 2, py = b_y b + b_height b / 2\<rparr>"

definition spawnEnemy :: "app \<Rightarrow> app" where
  "spawnEnemy s =
     (let targetBuildings = filter (\<lambda>b. \<not> b_isDestroyed b) (buildings s)
      in if length targetBuildings = 0 then s
         else
           let (r1, s1) = mathRandom s;
               target = targetBuildings ! nat \<lfloor>r1 * real (length targetBuildings)\<rfloor>;
               (r2, s2) = mathRandom s1;
               startX = r2 * canvasWidth s;
               speedMult = fst (getDifficultyModifiers (difficulty s));
               (r3, s3) = mathRandom s2
           in s3\<lparr>missiles := missiles s3 @
                    [\<lparr>m_id = nextId s3,
                      m_start = \<lparr>px = startX, py = 0\<rparr>,
                      m_current = \<lparr>px = startX, py = 0\<rparr>,
                      m_target = center target,
                      m_speed = (ENEMY_SPEED_MIN + r3 * (ENEMY_SPEED_MAX - ENEMY_SPEED_MIN)) * speedMult,
                      m_color = ''#ff4444'',
                      m_isEnemy = True\<rparr>],
                  nextId := Suc (nextId s3)\<rparr>)"

section \<open>Creating an explosion (lines 185-206)\<close>

fun addParticles :: "nat \<Rightarrow> real \<Rightarrow> real \<Rightarrow> app \<Rightarrow> app" where
  "addParticles 0 x y s = s"
| "addParticles (Suc n) x y s =
     (let (r1, s1) = mathRandom s;
          (r2, s2) = mathRandom s1;
          (r3, s3) = mathRandom s2
      in addParticles n x y
           (s3\<lparr>particles := particles s3 @
                 [\<lparr>p_x = x, p_y = y, p_vx = (r1 - 0.5) * 4, p_vy = (r2 - 0.5) * 4,
                   p_life = 1, p_color = r3 * 60 + 10\<rparr>]\<rparr>))"

text \<open>
  \<open>createExplosion\<close> pushes onto whatever array \<open>explosionsRef.current\<close> holds at the
  moment of the call (the field \<open>explosions\<close>), then pushes 15 particles.
\<close>

definition createExplosion :: "real \<Rightarrow> real \<Rightarrow> app \<Rightarrow> app" where
  "createExplosion x y s =
     addParticles 15 x y
       (s\<lparr>explosions := explosions s @
            [\<lparr>e_x = x, e_y = y, e_radius = 0, e_maxRadius = EXPLOSION_RADIUS,
              e_timer = EXPLOSION_DURATION, e_id = nextId s\<rparr>],
          nextId := Suc (nextId s)\<rparr>)"

section \<open>Firing (lines 208-243)\<close>

text \<open>
  The \<open>forEach\<close> over the live batteries keeps \<open>(bestBattery, minDist)\<close>; \<open>None\<close> stands
  for \<open>(null, Infinity)\<close>. A battery without a side reads \<open>ammo[undefined]\<close>, which is
  not \<open>> 0\<close>.
\<close>

fun closestBattery ::
  "(side \<Rightarrow> int) \<Rightarrow> real \<Rightarrow> building list \<Rightarrow> (building \<times> real) option \<Rightarrow> (building \<times> real) option"
where
  "closestBattery am targetX [] best = best"
| "closestBattery am targetX (b # bs) best =
     closestBattery am targetX bs
       (case b_batterySide b of
          None \<Rightarrow> best
        | Some sd \<Rightarrow>
            if am sd > 0 then
              (let dist = \<bar>b_x b + b_width b / 2 - targetX\<bar>
               in case best of
                    None \<Rightarrow> Some (b, dist)
                  | Some (b0, minDist) \<Rightarrow> if dist < minDist then Some (b, dist) else best)
            else best)"

definition fireMissile :: "real \<Rightarrow> real \<Rightarrow> app \<Rightarrow> app" where
  "fireMissile targetX targetY s =
     (if gameState s \<noteq> Playing \<or> showHelp s then s
      else
        let batteries = filter (\<lambda>b. b_type b = Battery \<and> \<not> b_isDestroyed b) (buildings s)
        in if length batteries = 0 then s
           else
             case closestBattery (ammo s) targetX batteries None of
               None \<Rightarrow> s
             | Some (bestBattery, minDist) \<Rightarrow>
                 (case b_batterySide bestBattery of
                    None \<Rightarrow> s  \<comment> \<open>not reached: a chosen battery has a side\<close>
                  | Some sd \<Rightarrow>
                      s\<lparr>ammo := (ammo s)(sd := ammo s sd - 1),
                        missiles := missiles s @
                          [\<lparr>m_id = nextId s,
                            m_start = \<lparr>px = b_x bestBattery + b_width bestBattery / 2, py = b_y bestBattery\<rparr>,
                            m_current = \<lparr>px = b_x bestBattery + b_width bestBattery / 2, py = b_y bestBattery\<rparr>,
                            m_target = \<lparr>px = targetX, py = targetY\<rparr>,
                            m_speed = MISSILE_SPEED,
                            m_color = ''#44ccff'',
                            m_isEnemy = False\<rparr>],
                        nextId := Suc (nextId s)\<rparr>))"

section \<open>The game loop (lines 246-391)\<close>

subsection \<open>Spawn decision (lines 257-265)\<close>

text \<open>
  The interval is computed here in exact arithmetic. The code computes it in doubles, and
  for some scores the two differ in the last place (score 280 on hard: 1008 here,
  1007.9999999999999 there); at the scores and times used below they agree, and nothing
  below depends on more than that.
\<close>

definition spawnRate :: "int \<Rightarrow> difficulty \<Rightarrow> real" where
  "spawnRate sc d =
     (let spawnMult = snd (getDifficultyModifiers d);
          baseSpawnRate = max 500 (2000 - (real_of_int sc / 100) * 200)
      in baseSpawnRate * spawnMult)"

definition spawnPhase :: "real \<Rightarrow> app \<Rightarrow> app" where
  "spawnPhase time s =
     (if time - lastEnemySpawn s > spawnRate (score s) (difficulty s)
      then (spawnEnemy s)\<lparr>lastEnemySpawn := time\<rparr>
      else s)"

subsection \<open>Missiles: arrival and motion (lines 275-313)\<close>

definition remaining :: "missile \<Rightarrow> real" where
  "remaining m =
     (let dx = px (m_target m) - px (m_current m);
          dy = py (m_target m) - py (m_current m)
      in sqrt (dx * dx + dy * dy))"

definition arrived :: "missile \<Rightarrow> bool" where
  "arrived m = (remaining m < m_speed m)"

definition advance :: "missile \<Rightarrow> missile" where
  "advance m =
     (let dx = px (m_target m) - px (m_current m);
          dy = py (m_target m) - py (m_current m);
          dist = sqrt (dx * dx + dy * dy);
          vx = (dx / dist) * m_speed m;
          vy = (dy / dist) * m_speed m
      in m\<lparr>m_current := \<lparr>px = px (m_current m) + vx, py = py (m_current m) + vy\<rparr>\<rparr>)"

definition hit :: "point \<Rightarrow> building \<Rightarrow> building" where
  "hit t b =
     (if \<not> b_isDestroyed b then
        (let bx = b_x b + b_width b / 2;
             by = b_y b + b_height b / 2;
             d = sqrt ((bx - px t) ^ 2 + (by - py t) ^ 2)
         in if d < 30 then b\<lparr>b_isDestroyed := True\<rparr> else b)
      else b)"

text \<open>
  One call of the \<open>filter\<close> callback: \<open>None\<close> is \<open>return false\<close> (the missile is
  dropped), \<open>Some m'\<close> is \<open>return true\<close> with the missile moved in place.
\<close>

definition stepMissile :: "missile \<Rightarrow> app \<Rightarrow> missile option \<times> app" where
  "stepMissile m s =
     (if arrived m then
        (if m_isEnemy m then
           (None, (createExplosion (px (m_target m)) (py (m_target m)) s)
                    \<lparr>buildings := map (hit (m_target m)) (buildings s)\<rparr>)
         else (None, createExplosion (px (m_target m)) (py (m_target m)) s))
      else (Some (advance m), s))"

fun missileLoop :: "missile list \<Rightarrow> app \<Rightarrow> missile list \<times> app" where
  "missileLoop [] s = ([], s)"
| "missileLoop (m # ms) s =
     (let (r, s1) = stepMissile m s;
          (kept, s2) = missileLoop ms s1
      in (case r of None \<Rightarrow> kept | Some m' \<Rightarrow> m' # kept, s2))"

definition missilePhase :: "app \<Rightarrow> app" where
  "missilePhase s = (let (kept, s') = missileLoop (missiles s) s in s'\<lparr>missiles := kept\<rparr>)"

subsection \<open>Explosions: growth and catching (lines 316-343)\<close>

definition grow :: "explosion \<Rightarrow> explosion" where
  "grow e =
     (let timer = e_timer e - 1;
          progress = 1 - real_of_int timer / real_of_int EXPLOSION_DURATION
      in e\<lparr>e_timer := timer, e_radius := sin (progress * pi) * e_maxRadius e\<rparr>)"

definition caught :: "explosion \<Rightarrow> missile \<Rightarrow> bool" where
  "caught e m =
     (m_isEnemy m \<and>
      sqrt ((px (m_current m) - e_x e) ^ 2 + (py (m_current m) - e_y e) ^ 2) < e_radius e)"

text \<open>
  The inner \<open>filter\<close> over the missiles for one explosion. A caught missile queues
  \<open>setScore(prev => prev + 20)\<close> and calls \<open>createExplosion\<close>.
\<close>

fun catchLoop :: "explosion \<Rightarrow> missile list \<Rightarrow> app \<Rightarrow> missile list \<times> app" where
  "catchLoop e [] s = ([], s)"
| "catchLoop e (m # ms) s =
     (if caught e m then
        catchLoop e ms
          (createExplosion (px (m_current m)) (py (m_current m)) (s\<lparr>score := score s + 20\<rparr>))
      else (let (kept, s') = catchLoop e ms s in (m # kept, s')))"

text \<open>
  The outer \<open>filter\<close> runs over the elements the array had when it started (the list
  argument) and collects the kept ones in a new array. While it runs,
  \<open>explosionsRef.current\<close> is still the old array, so that is where \<open>createExplosion\<close>
  pushes; the assignment of the result replaces the old array afterwards.
\<close>

fun explosionLoop :: "explosion list \<Rightarrow> app \<Rightarrow> explosion list \<times> app" where
  "explosionLoop [] s = ([], s)"
| "explosionLoop (e # es) s =
     (let e' = grow e;
          (keptM, s1) = catchLoop e' (missiles s) s;
          (keptE, s2) = explosionLoop es (s1\<lparr>missiles := keptM\<rparr>)
      in (if e_timer e' > 0 then e' # keptE else keptE, s2))"

definition explosionPhase :: "app \<Rightarrow> app" where
  "explosionPhase s = (let (kept, s') = explosionLoop (explosions s) s in s'\<lparr>explosions := kept\<rparr>)"

subsection \<open>Particles (lines 346-355)\<close>

definition moveParticle :: "particle \<Rightarrow> particle" where
  "moveParticle p = p\<lparr>p_x := p_x p + p_vx p, p_y := p_y p + p_vy p, p_life := p_life p - 0.02\<rparr>"

definition particlePhase :: "app \<Rightarrow> app" where
  "particlePhase s = s\<lparr>particles := filter (\<lambda>p. p_life p > 0) (map moveParticle (particles s))\<rparr>"

subsection \<open>Win and loss (lines 378-386)\<close>

definition activeBatteries :: "building list \<Rightarrow> building list" where
  "activeBatteries bs = filter (\<lambda>b. b_type b = Battery \<and> \<not> b_isDestroyed b) bs"

text \<open>The first argument is \<open>score\<close> as the callback's closure holds it.\<close>

definition checkWinLoss :: "int \<Rightarrow> app \<Rightarrow> app" where
  "checkWinLoss sc s =
     (if sc \<ge> TARGET_SCORE then s\<lparr>gameState := Won\<rparr>
      else if length (activeBatteries (buildings s)) = 0 then s\<lparr>gameState := Lost\<rparr>
      else s)"

subsection \<open>One frame\<close>

text \<open>
  \<open>update(time)\<close> without the drawing calls. \<open>score\<close>, \<open>showHelp\<close> and \<open>difficulty\<close> are
  the values of the render that created the callback; the queued \<open>setScore\<close> updaters
  are accumulated in the field \<open>score\<close>, which the callback itself never reads back.
\<close>

definition update :: "real \<Rightarrow> app \<Rightarrow> app" where
  "update time s =
     (if showHelp s then s
      else checkWinLoss (score s)
             (particlePhase (explosionPhase (missilePhase (spawnPhase time s)))))"

section \<open>The component around the loop (lines 393-421 and the buttons of the markup)\<close>

text \<open>
  What the effect reads from outside: \<open>performance.now()\<close> and the window size.
\<close>

record env =
  now :: real
  innerWidth :: real
  innerHeight :: real

text \<open>
  The effect of lines 393-405. While \<open>gameState\<close> is \<open>playing\<close> it calls \<open>initGame\<close>,
  rebases \<open>lastEnemySpawnRef\<close> and requests a frame; otherwise it cancels the frame
  (and asks for a tip, presentation only).
\<close>

definition effect :: "env \<Rightarrow> app \<Rightarrow> app" where
  "effect v s =
     (if gameState s = Playing
      then (initGame (innerWidth v) (innerHeight v) s)\<lparr>lastEnemySpawn := now v\<rparr>
      else s)"

text \<open>
  The effect's dependency array is \<open>[gameState, initGame, update, language, score]\<close>.
  \<open>initGame\<close> never changes; \<open>update\<close> is recreated when one of
  \<open>[gameState, score, ammo, spawnEnemy, showHelp, difficulty]\<close> changes, and \<open>spawnEnemy\<close>
  when \<open>difficulty\<close> changes. So the effect runs again after a render exactly when one of
  the six state variables below differs from the previous render. (An \<open>ammo\<close> object is
  only ever replaced by one with a different content or by \<open>INITIAL_AMMO\<close> itself, so
  comparing contents is comparing identities.)
\<close>

definition deps :: "app \<Rightarrow> phase \<times> lang \<times> int \<times> (side \<Rightarrow> int) \<times> bool \<times> difficulty" where
  "deps s = (gameState s, language s, score s, ammo s, showHelp s, difficulty s)"

definition settled :: "app \<Rightarrow> bool" where
  "settled s = (gameState s \<noteq> Playing \<or> (score s = 0 \<and> ammo s = INITIAL_AMMO \<and> \<not> showHelp s))"

text \<open>
  Rendering after a handler has run: as long as the dependencies differ from the previous
  render, the effect runs and its state updates cause another render. An event is
  processed to completion before the next one (renders and effects are not interleaved
  with frames or input).
\<close>

function commit :: "env \<Rightarrow> app \<Rightarrow> app \<Rightarrow> app" where
  "commit v prev cur = (if deps cur = deps prev then cur else commit v cur (effect v cur))"
  by pat_completeness auto
termination
proof (relation "measure (\<lambda>(v, prev, cur).
         if deps cur = deps prev then 0 else if settled cur then 1 else (2::nat))")
  show "wf (measure (\<lambda>(v, prev, cur).
         if deps cur = deps prev then 0 else if settled cur then 1 else (2::nat)))"
    by simp
next
  fix v :: env and prev cur :: app
  assume ne: "deps cur \<noteq> deps prev"
  have a: "settled cur \<Longrightarrow> deps (effect v cur) = deps cur"
    by (auto simp: settled_def effect_def deps_def initGame_def)
  have b: "settled (effect v cur)"
    by (simp add: settled_def effect_def initGame_def)
  show "((v, cur, effect v cur), (v, prev, cur)) \<in> measure (\<lambda>(v, prev, cur).
         if deps cur = deps prev then 0 else if settled cur then 1 else (2::nat))"
    using ne a b by auto
qed

declare commit.simps [simp del]

datatype event =
    Frame real            \<comment> \<open>the requested animation frame fires with its timestamp\<close>
  | Click real real       \<comment> \<open>mouse down or touch start on the canvas\<close>
  | PressPlay             \<comment> \<open>the start button of the menu, the retry button of won and lost\<close>
  | OpenHelp
  | CloseHelp
  | SetDifficulty difficulty
  | ToggleLanguage

fun handler :: "event \<Rightarrow> app \<Rightarrow> app" where
  "handler (Frame time) s = update time s"
| "handler (Click x y) s = fireMissile x y s"
| "handler PressPlay s = s\<lparr>gameState := Playing\<rparr>"
| "handler OpenHelp s = s\<lparr>showHelp := True\<rparr>"
| "handler CloseHelp s = s\<lparr>showHelp := False\<rparr>"
| "handler (SetDifficulty d) s = s\<lparr>difficulty := d\<rparr>"
| "handler ToggleLanguage s = s\<lparr>language := (if language s = En then Zh else En)\<rparr>"

text \<open>
  When an event can happen: a frame is pending only while \<open>gameState\<close> is \<open>playing\<close>
  (the effect requests it there and its cleanup cancels it at every change); the play
  buttons are rendered in the menu, won and lost panels only, the help button and the
  difficulty select in the HUD while playing, the difficulty buttons in the menu, the
  close button while the help overlay is shown.
\<close>

fun enabled :: "event \<Rightarrow> app \<Rightarrow> bool" where
  "enabled (Frame time) s = (gameState s = Playing)"
| "enabled (Click x y) s = True"
| "enabled PressPlay s = (gameState s \<noteq> Playing)"
| "enabled OpenHelp s = (gameState s = Playing)"
| "enabled CloseHelp s = showHelp s"
| "enabled (SetDifficulty d) s = (gameState s = Playing \<or> gameState s = Menu)"
| "enabled ToggleLanguage s = True"

definition react :: "env \<Rightarrow> event \<Rightarrow> app \<Rightarrow> app" where
  "react v ev s = commit v s (handler ev s)"

text \<open>The state after mounting: the \<open>useState\<close> and \<open>useRef\<close> initial values.\<close>

definition initialApp :: "real \<Rightarrow> real \<Rightarrow> (nat \<Rightarrow> unit_real) \<Rightarrow> app" where
  "initialApp w h r =
     \<lparr>gameState = Menu, score = 0, ammo = INITIAL_AMMO, language = Zh, difficulty = Medium,
      showHelp = False, missiles = [], explosions = [], buildings = [], particles = [],
      lastEnemySpawn = 0, nextId = 0, canvasWidth = w, canvasHeight = h, rnd = r, rndIx = 0\<rparr>"

inductive reachable :: "app \<Rightarrow> bool" where
  init: "reachable (initialApp w h r)"
| step: "reachable s \<Longrightarrow> enabled ev s \<Longrightarrow> reachable (react v ev s)"

text \<open>
  Closed form of what one \<open>createExplosion\<close> call appends to the particles: \<open>n\<close>
  particles at \<open>(x, y)\<close>, each built from three consecutive draws starting at cursor \<open>i\<close>.
\<close>

fun burst :: "nat \<Rightarrow> real \<Rightarrow> real \<Rightarrow> (nat \<Rightarrow> unit_real) \<Rightarrow> nat \<Rightarrow> particle list" where
  "burst 0 x y r i = []"
| "burst (Suc n) x y r i =
     \<lparr>p_x = x, p_y = y, p_vx = (Rep_unit_real (r i) - 0.5) * 4,
      p_vy = (Rep_unit_real (r (Suc i)) - 0.5) * 4, p_life = 1,
      p_color = Rep_unit_real (r (Suc (Suc i))) * 60 + 10\<rparr> # burst n x y r (Suc (Suc (Suc i)))"

text \<open>The blast that \<open>createExplosion x y\<close> pushes when the identity counter is \<open>i\<close>.\<close>

definition blast :: "real \<Rightarrow> real \<Rightarrow> nat \<Rightarrow> explosion" where
  "blast x y i = \<lparr>e_x = x, e_y = y, e_radius = 0, e_maxRadius = 40, e_timer = 60, e_id = i\<rparr>"


text \<open>Concrete inputs: a window of 1000 by 600 and a game that has just been started.\<close>

definition env0 :: env where
  "env0 = \<lparr>now = 0, innerWidth = 1000, innerHeight = 600\<rparr>"

definition freshGame :: app where
  "freshGame = (initGame 1000 600 (initialApp 1000 600 (\<lambda>i. draw_half)))\<lparr>gameState := Playing\<rparr>"

text \<open>
  Words of the firing contract: the horizontal distance of a battery's center to the
  target, the batteries that qualify (standing, with ammo on their side), and the
  interceptor a battery launches.
\<close>

definition bdist :: "real \<Rightarrow> building \<Rightarrow> real" where
  "bdist targetX b = \<bar>b_x b + b_width b / 2 - targetX\<bar>"

definition hasAmmo :: "(side \<Rightarrow> int) \<Rightarrow> building \<Rightarrow> bool" where
  "hasAmmo am b = (case b_batterySide b of None \<Rightarrow> False | Some sd \<Rightarrow> am sd > 0)"

definition candidates :: "app \<Rightarrow> building list" where
  "candidates s =
     filter (\<lambda>b. b_type b = Battery \<and> \<not> b_isDestroyed b \<and> hasAmmo (ammo s) b) (buildings s)"

definition playerMissile :: "nat \<Rightarrow> building \<Rightarrow> real \<Rightarrow> real \<Rightarrow> missile" where
  "playerMissile i b targetX targetY =
     \<lparr>m_id = i,
      m_start = \<lparr>px = b_x b + b_width b / 2, py = b_y b\<rparr>,
      m_current = \<lparr>px = b_x b + b_width b / 2, py = b_y b\<rparr>,
      m_target = \<lparr>px = targetX, py = targetY\<rparr>,
      m_speed = 4, m_color = ''#44ccff'', m_isEnemy = False\<rparr>"

text \<open>One step of the \<open>forEach\<close> in \<open>fireMissile\<close>, named for the proofs.\<close>

definition pick :: "(side \<Rightarrow> int) \<Rightarrow> real \<Rightarrow> building \<Rightarrow> (building \<times> real) option \<Rightarrow> (building \<times> real) option" where
  "pick am targetX b best =
     (if hasAmmo am b then
        (case best of
           None \<Rightarrow> Some (b, bdist targetX b)
         | Some (b0, minDist) \<Rightarrow> if bdist targetX b < minDist then Some (b, bdist targetX b) else best)
      else best)"

text \<open>
  Words of the arrival contract: a structure's center lies within 30 of an impact point;
  the blasts and the particle bursts that a list of arriving missiles creates, given the
  identity counter and the generator's cursor they start from.
\<close>

definition near :: "point \<Rightarrow> building \<Rightarrow> bool" where
  "near t b =
     (sqrt ((b_x b + b_width b / 2 - px t) ^ 2 + (b_y b + b_height b / 2 - py t) ^ 2) < 30)"

fun blasts :: "nat \<Rightarrow> missile list \<Rightarrow> explosion list" where
  "blasts i [] = []"
| "blasts i (m # ms) = blast (px (m_target m)) (py (m_target m)) i # blasts (Suc i) ms"

fun bursts :: "(nat \<Rightarrow> unit_real) \<Rightarrow> nat \<Rightarrow> missile list \<Rightarrow> particle list" where
  "bursts r i [] = []"
| "bursts r i (m # ms) =
     burst 15 (px (m_target m)) (py (m_target m)) r i @ bursts r (i + 45) ms"

definition impacts :: "missile list \<Rightarrow> missile list" where
  "impacts ms = filter (\<lambda>m. arrived m \<and> m_isEnemy m) ms"

definition wreck :: "missile list \<Rightarrow> building \<Rightarrow> building" where
  "wreck ms b =
     (if \<not> b_isDestroyed b \<and> list_ex (\<lambda>m. near (m_target m) b) ms
      then b\<lparr>b_isDestroyed := True\<rparr> else b)"

text \<open>The unit vector from a missile's position to its target.\<close>

definition direction :: "missile \<Rightarrow> point" where
  "direction m =
     \<lparr>px = (px (m_target m) - px (m_current m)) / remaining m,
      py = (py (m_target m) - py (m_current m)) / remaining m\<rparr>"

text \<open>Concrete missiles: one at its target already, one five units away from it.\<close>

definition landed :: missile where
  "landed = \<lparr>m_id = 7, m_start = \<lparr>px = 80, py = 0\<rparr>, m_current = \<lparr>px = 80, py = 545\<rparr>,
              m_target = \<lparr>px = 80, py = 545\<rparr>, m_speed = 1, m_color = ''#ff4444'',
              m_isEnemy = True\<rparr>"

definition flying :: missile where
  "flying = \<lparr>m_id = 8, m_start = \<lparr>px = 0, py = 0\<rparr>, m_current = \<lparr>px = 0, py = 0\<rparr>,
              m_target = \<lparr>px = 3, py = 4\<rparr>, m_speed = 1, m_color = ''#ff4444'',
              m_isEnemy = True\<rparr>"

text \<open>Concrete input: the fresh game with its left battery in ruins.\<close>

definition leftDown :: app where
  "leftDown =
     freshGame\<lparr>buildings :=
       map (\<lambda>b. if b_batterySide b = Some SideLeft then b\<lparr>b_isDestroyed := True\<rparr> else b)
         (buildings freshGame)\<rparr>"

text \<open>
  Concrete input for the catch phase: the left battery has been hit by an enemy missile,
  the blast of that impact stands at the battery's center (80, 545) with timer 31, and a
  second enemy missile on its way to the same target is 25 above it.
\<close>

definition blast0 :: explosion where
  "blast0 = \<lparr>e_x = 80, e_y = 545, e_radius = sin ((1 - 31 / 60) * pi) * 40, e_maxRadius = 40,
              e_timer = 31, e_id = 2\<rparr>"

definition raider :: missile where
  "raider = \<lparr>m_id = 1, m_start = \<lparr>px = 80, py = 0\<rparr>, m_current = \<lparr>px = 80, py = 520\<rparr>,
              m_target = \<lparr>px = 80, py = 545\<rparr>, m_speed = 1, m_color = ''#ff4444'',
              m_isEnemy = True\<rparr>"

definition catchGame :: app where
  "catchGame =
     leftDown\<lparr>explosions := [blast0], missiles := [raider], nextId := 3, lastEnemySpawn := 5000\<rparr>"



section \<open>Basic facts\<close>

lemma commit_unfold:
  "commit v prev cur =
     (if deps cur = deps prev then cur
      else if deps (effect v cur) = deps cur then effect v cur
      else effect v (effect v cur))"
proof -
  have s: "settled (effect v cur)"
    by (simp add: settled_def effect_def initGame_def)
  have "deps (effect v (effect v cur)) = deps (effect v cur)"
    using s by (auto simp: settled_def effect_def deps_def initGame_def)
  then show ?thesis
    by (simp add: commit.simps [of v prev cur] commit.simps [of v cur "effect v cur"]
        commit.simps [of v "effect v cur" "effect v (effect v cur)"])
qed

lemma addParticles_eq:
  "addParticles n x y s =
     s\<lparr>particles := particles s @ burst n x y (rnd s) (rndIx s), rndIx := rndIx s + 3 * n\<rparr>"
  by (induction n arbitrary: s) (simp_all add: mathRandom_def split_def Let_def)

lemma createExplosion_eq:
  "createExplosion x y s =
     s\<lparr>explosions := explosions s @ [blast x y (nextId s)],
       nextId := Suc (nextId s),
       particles := particles s @ burst 15 x y (rnd s) (rndIx s),
       rndIx := rndIx s + 45\<rparr>"
  by (simp add: createExplosion_def addParticles_eq blast_def
      EXPLOSION_RADIUS_def EXPLOSION_DURATION_def)

lemma length_burst: "length (burst n x y r i) = n"
  by (induction n arbitrary: i) simp_all

lemma burst_at: "p \<in> set (burst n x y r i) \<Longrightarrow> p_x p = x \<and> p_y p = y \<and> p_life p = 1"
  by (induction n arbitrary: i) auto

lemma missileLoop_frame:
  "missileLoop ms s = (k, s') \<Longrightarrow>
     gameState s' = gameState s \<and> score s' = score s \<and> ammo s' = ammo s \<and>
     language s' = language s \<and> difficulty s' = difficulty s \<and> showHelp s' = showHelp s \<and>
     lastEnemySpawn s' = lastEnemySpawn s \<and> canvasWidth s' = canvasWidth s \<and>
     canvasHeight s' = canvasHeight s \<and> rnd s' = rnd s \<and> missiles s' = missiles s"
proof (induction ms arbitrary: s k s')
  case Nil
  then show ?case by simp
next
  case (Cons m ms)
  obtain r s1 where a: "stepMissile m s = (r, s1)" by (cases "stepMissile m s")
  obtain k2 s2 where b: "missileLoop ms s1 = (k2, s2)" by (cases "missileLoop ms s1")
  have c: "s' = s2" using Cons.prems a b by simp
  have d: "gameState s1 = gameState s \<and> score s1 = score s \<and> ammo s1 = ammo s \<and>
     language s1 = language s \<and> difficulty s1 = difficulty s \<and> showHelp s1 = showHelp s \<and>
     lastEnemySpawn s1 = lastEnemySpawn s \<and> canvasWidth s1 = canvasWidth s \<and>
     canvasHeight s1 = canvasHeight s \<and> rnd s1 = rnd s \<and> missiles s1 = missiles s"
    using a by (auto simp: stepMissile_def createExplosion_eq split: if_splits)
  show ?case using Cons.IH [OF b] c d by simp
qed

lemma catchLoop_frame:
  "catchLoop e ms s = (k, s') \<Longrightarrow>
     gameState s' = gameState s \<and> ammo s' = ammo s \<and>
     language s' = language s \<and> difficulty s' = difficulty s \<and> showHelp s' = showHelp s \<and>
     lastEnemySpawn s' = lastEnemySpawn s \<and> canvasWidth s' = canvasWidth s \<and>
     canvasHeight s' = canvasHeight s \<and> rnd s' = rnd s \<and> missiles s' = missiles s \<and>
     buildings s' = buildings s"
proof (induction ms arbitrary: s k s')
  case Nil
  then show ?case by simp
next
  case (Cons m ms)
  show ?case
  proof (cases "caught e m")
    case True
    then have "catchLoop e ms (createExplosion (px (m_current m)) (py (m_current m)) (s\<lparr>score := score s + 20\<rparr>)) = (k, s')"
      using Cons.prems by simp
    from Cons.IH [OF this] show ?thesis by (simp add: createExplosion_eq)
  next
    case False
    obtain k2 s2 where b: "catchLoop e ms s = (k2, s2)" by (cases "catchLoop e ms s")
    then have "s' = s2" using Cons.prems False by simp
    then show ?thesis using Cons.IH [OF b] by simp
  qed
qed

lemma explosionLoop_frame:
  "explosionLoop es s = (k, s') \<Longrightarrow>
     gameState s' = gameState s \<and> ammo s' = ammo s \<and>
     language s' = language s \<and> difficulty s' = difficulty s \<and> showHelp s' = showHelp s \<and>
     lastEnemySpawn s' = lastEnemySpawn s \<and> canvasWidth s' = canvasWidth s \<and>
     canvasHeight s' = canvasHeight s \<and> rnd s' = rnd s \<and>
     buildings s' = buildings s"
proof (induction es arbitrary: s k s')
  case Nil
  then show ?case by simp
next
  case (Cons e es)
  obtain km s1 where a: "catchLoop (grow e) (missiles s) s = (km, s1)"
    by (cases "catchLoop (grow e) (missiles s) s")
  obtain k2 s2 where b: "explosionLoop es (s1\<lparr>missiles := km\<rparr>) = (k2, s2)"
    by (cases "explosionLoop es (s1\<lparr>missiles := km\<rparr>)")
  have c: "s' = s2" using Cons.prems a b by (simp add: Let_def)
  show ?case using Cons.IH [OF b] catchLoop_frame [OF a] c by simp
qed

lemma spawnEnemy_frame:
  "gameState (spawnEnemy s) = gameState s \<and> score (spawnEnemy s) = score s \<and>
   ammo (spawnEnemy s) = ammo s \<and> language (spawnEnemy s) = language s \<and>
   difficulty (spawnEnemy s) = difficulty s \<and> showHelp (spawnEnemy s) = showHelp s \<and>
   buildings (spawnEnemy s) = buildings s \<and> explosions (spawnEnemy s) = explosions s \<and>
   particles (spawnEnemy s) = particles s \<and> lastEnemySpawn (spawnEnemy s) = lastEnemySpawn s"
  by (simp add: spawnEnemy_def mathRandom_def Let_def split_def)

lemma spawnPhase_frame:
  "gameState (spawnPhase t s) = gameState s \<and> score (spawnPhase t s) = score s \<and>
   ammo (spawnPhase t s) = ammo s \<and> language (spawnPhase t s) = language s \<and>
   difficulty (spawnPhase t s) = difficulty s \<and> showHelp (spawnPhase t s) = showHelp s \<and>
   buildings (spawnPhase t s) = buildings s \<and> explosions (spawnPhase t s) = explosions s \<and>
   particles (spawnPhase t s) = particles s"
  by (simp add: spawnPhase_def spawnEnemy_frame)

lemma missilePhase_frame:
  "gameState (missilePhase s) = gameState s \<and> score (missilePhase s) = score s \<and>
   ammo (missilePhase s) = ammo s \<and> language (missilePhase s) = language s \<and>
   difficulty (missilePhase s) = difficulty s \<and> showHelp (missilePhase s) = showHelp s \<and>
   lastEnemySpawn (missilePhase s) = lastEnemySpawn s"
proof -
  obtain k s' where a: "missileLoop (missiles s) s = (k, s')"
    by (cases "missileLoop (missiles s) s")
  show ?thesis using missileLoop_frame [OF a] by (simp add: missilePhase_def a)
qed

lemma explosionPhase_frame:
  "gameState (explosionPhase s) = gameState s \<and>
   ammo (explosionPhase s) = ammo s \<and> language (explosionPhase s) = language s \<and>
   difficulty (explosionPhase s) = difficulty s \<and> showHelp (explosionPhase s) = showHelp s \<and>
   lastEnemySpawn (explosionPhase s) = lastEnemySpawn s \<and>
   buildings (explosionPhase s) = buildings s"
proof -
  obtain k s' where a: "explosionLoop (explosions s) s = (k, s')"
    by (cases "explosionLoop (explosions s) s")
  show ?thesis using explosionLoop_frame [OF a] by (simp add: explosionPhase_def a)
qed

lemma particlePhase_frame:
  "gameState (particlePhase s) = gameState s \<and> score (particlePhase s) = score s \<and>
   ammo (particlePhase s) = ammo s \<and> language (particlePhase s) = language s \<and>
   difficulty (particlePhase s) = difficulty s \<and> showHelp (particlePhase s) = showHelp s \<and>
   lastEnemySpawn (particlePhase s) = lastEnemySpawn s \<and>
   buildings (particlePhase s) = buildings s \<and> missiles (particlePhase s) = missiles s \<and>
   explosions (particlePhase s) = explosions s"
  by (simp add: particlePhase_def)

lemma checkWinLoss_frame:
  "score (checkWinLoss sc s) = score s \<and>
   ammo (checkWinLoss sc s) = ammo s \<and> language (checkWinLoss sc s) = language s \<and>
   difficulty (checkWinLoss sc s) = difficulty s \<and> showHelp (checkWinLoss sc s) = showHelp s \<and>
   lastEnemySpawn (checkWinLoss sc s) = lastEnemySpawn s \<and>
   buildings (checkWinLoss sc s) = buildings s \<and> missiles (checkWinLoss sc s) = missiles s \<and>
   explosions (checkWinLoss sc s) = explosions s \<and> particles (checkWinLoss sc s) = particles s"
  by (simp add: checkWinLoss_def)

lemma update_gameState:
  "\<not> showHelp s \<Longrightarrow>
   gameState (update t s) =
     (if score s \<ge> 1000 then Won
      else if length (activeBatteries (buildings (update t s))) = 0 then Lost
      else gameState s)"
  by (simp add: update_def checkWinLoss_def TARGET_SCORE_def particlePhase_frame
      explosionPhase_frame missilePhase_frame spawnPhase_frame)

lemma update_frame:
  "ammo (update t s) = ammo s \<and> language (update t s) = language s \<and>
   difficulty (update t s) = difficulty s \<and> showHelp (update t s) = showHelp s"
  by (simp add: update_def checkWinLoss_frame particlePhase_frame
      explosionPhase_frame missilePhase_frame spawnPhase_frame)

lemma effect_gameState: "gameState (effect v s) = gameState s"
  by (simp add: effect_def initGame_def)

lemma commit_gameState: "gameState (commit v prev cur) = gameState cur"
  by (simp add: commit_unfold effect_gameState)

lemma fireMissile_gameState: "gameState (fireMissile x y s) = gameState s"
  by (simp add: fireMissile_def Let_def split: option.splits prod.splits)

section \<open>Reset on entering Playing\<close>

lemma layout_batteries:
  "filter (\<lambda>b. b_type b = Battery) (layout w h) =
     [\<lparr>b_x = 50, b_y = h - 40 - 30, b_width = 60, b_height = 30,
       b_isDestroyed = False, b_type = Battery, b_id = 0, b_batterySide = Some SideLeft\<rparr>,
      \<lparr>b_x = w / 2 - 40, b_y = h - 40 - 40, b_width = 80, b_height = 40,
       b_isDestroyed = False, b_type = Battery, b_id = 1, b_batterySide = Some SideCenter\<rparr>,
      \<lparr>b_x = w - 110, b_y = h - 40 - 30, b_width = 60, b_height = 30,
       b_isDestroyed = False, b_type = Battery, b_id = 2, b_batterySide = Some SideRight\<rparr>]"
  by (simp add: layout_def city_def Let_def)

lemma layout_cities: "length (filter (\<lambda>b. b_type b = City) (layout w h)) = 6"
  by (simp add: layout_def city_def Let_def)

lemma layout_intact: "b \<in> set (layout w h) \<Longrightarrow> \<not> b_isDestroyed b"
  by (auto simp: layout_def city_def Let_def)

lemma react_PressPlay:
  assumes "gameState s \<noteq> Playing"
  shows "react v PressPlay s =
     (initGame (innerWidth v) (innerHeight v) (s\<lparr>gameState := Playing\<rparr>))\<lparr>lastEnemySpawn := now v\<rparr>"
  using assms by (simp add: react_def commit_unfold deps_def effect_def initGame_def)

text \<open>
  Claim C5. Whatever the previous phase (Menu, Won or Lost) and whatever the rest of the
  previous state, pressing play enters Playing with score 0, ammo 20, 40, 20 for left,
  center, right, no missiles, explosions or particles, and the buildings rebuilt from the
  window size alone: three batteries (left, center, right) and six cities, none destroyed.
\<close>

theorem entering_playing_resets:
  assumes "gameState s = Menu \<or> gameState s = Won \<or> gameState s = Lost"
  shows "gameState (react v PressPlay s) = Playing \<and>
         score (react v PressPlay s) = 0 \<and>
         ammo (react v PressPlay s) = INITIAL_AMMO \<and>
         ammo (react v PressPlay s) SideLeft = 20 \<and>
         ammo (react v PressPlay s) SideCenter = 40 \<and>
         ammo (react v PressPlay s) SideRight = 20 \<and>
         missiles (react v PressPlay s) = [] \<and>
         explosions (react v PressPlay s) = [] \<and>
         particles (react v PressPlay s) = [] \<and>
         buildings (react v PressPlay s) = layout (innerWidth v) (innerHeight v) \<and>
         map b_batterySide (filter (\<lambda>b. b_type b = Battery) (buildings (react v PressPlay s)))
           = [Some SideLeft, Some SideCenter, Some SideRight] \<and>
         length (filter (\<lambda>b. b_type b = City) (buildings (react v PressPlay s))) = 6 \<and>
         length (buildings (react v PressPlay s)) = 9 \<and>
         (\<forall>b \<in> set (buildings (react v PressPlay s)). \<not> b_isDestroyed b)"
proof -
  have ne: "gameState s \<noteq> Playing" using assms by auto
  have b: "buildings (react v PressPlay s) = layout (innerWidth v) (innerHeight v)"
    by (simp add: react_PressPlay [OF ne] initGame_def)
  have l: "length (layout (innerWidth v) (innerHeight v)) = 9"
    by (simp add: layout_def Let_def)
  show ?thesis
    using layout_intact [of _ "innerWidth v" "innerHeight v"]
    by (simp add: b l layout_batteries layout_cities)
       (simp add: react_PressPlay [OF ne] initGame_def)
qed

theorem entering_playing_resets_witness:
  "gameState (freshGame\<lparr>gameState := Lost, score := 40\<rparr>) = Lost \<and>
   score (react env0 PressPlay (freshGame\<lparr>gameState := Lost, score := 40\<rparr>)) = 0 \<and>
   ammo (react env0 PressPlay (freshGame\<lparr>gameState := Lost, score := 40\<rparr>)) SideCenter = 40 \<and>
   length (buildings (react env0 PressPlay (freshGame\<lparr>gameState := Lost, score := 40\<rparr>))) = 9"
proof -
  let ?s = "freshGame\<lparr>gameState := Lost, score := 40\<rparr>"
  have g: "gameState ?s = Lost" by simp
  then have h: "gameState ?s = Menu \<or> gameState ?s = Won \<or> gameState ?s = Lost" by blast
  show ?thesis using entering_playing_resets [OF h, of env0] g by blast
qed

section \<open>Firing\<close>

lemma closestBattery_Cons:
  "closestBattery am x (b # bs) best = closestBattery am x bs (pick am x b best)"
  by (simp add: pick_def hasAmmo_def bdist_def Let_def split: option.splits)

declare closestBattery.simps(2) [simp del]

lemma pick_None: "pick am x b best = None \<longleftrightarrow> best = None \<and> \<not> hasAmmo am b"
  by (simp add: pick_def split: option.splits prod.splits)

lemma pick_cases:
  "pick am x b best = best \<or> (hasAmmo am b \<and> pick am x b best = Some (b, bdist x b))"
  by (simp add: pick_def split: option.splits prod.splits)

lemma pick_le_old:
  "best = Some (b0, d0) \<Longrightarrow> \<exists>b1 d1. pick am x b best = Some (b1, d1) \<and> d1 \<le> d0"
  by (simp add: pick_def)

lemma pick_le_new:
  "hasAmmo am b \<Longrightarrow> \<exists>b1 d1. pick am x b best = Some (b1, d1) \<and> d1 \<le> bdist x b"
  by (cases best) (auto simp: pick_def)

lemma closestBattery_None:
  "closestBattery am x bs best = None \<longleftrightarrow> best = None \<and> filter (hasAmmo am) bs = []"
proof (induction bs arbitrary: best)
  case Nil
  then show ?case by simp
next
  case (Cons b bs)
  show ?case
    unfolding closestBattery_Cons Cons.IH pick_None by auto
qed

lemma closestBattery_le_acc:
  "best = Some (b0, d0) \<Longrightarrow> \<exists>b1 d1. closestBattery am x bs best = Some (b1, d1) \<and> d1 \<le> d0"
proof (induction bs arbitrary: best b0 d0)
  case Nil
  then show ?case by simp
next
  case (Cons b bs)
  from pick_le_old [OF Cons.prems, of am x b]
  obtain b1 d1 where p: "pick am x b best = Some (b1, d1)" "d1 \<le> d0" by blast
  from Cons.IH [OF p(1)]
  obtain b2 d2 where "closestBattery am x bs (pick am x b best) = Some (b2, d2)" "d2 \<le> d1"
    by blast
  then show ?case using p(2) by (simp add: closestBattery_Cons)
qed

lemma closestBattery_least:
  "closestBattery am x bs best = Some (b1, d1) \<Longrightarrow> b' \<in> set bs \<Longrightarrow> hasAmmo am b'
     \<Longrightarrow> d1 \<le> bdist x b'"
proof (induction bs arbitrary: best)
  case Nil
  then show ?case by simp
next
  case (Cons b bs)
  have r: "closestBattery am x bs (pick am x b best) = Some (b1, d1)"
    using Cons.prems(1) by (simp add: closestBattery_Cons)
  show ?case
  proof (cases "b' = b")
    case True
    from pick_le_new [of am b x best] Cons.prems(3) True
    obtain b2 d2 where p: "pick am x b best = Some (b2, d2)" "d2 \<le> bdist x b" by blast
    from closestBattery_le_acc [OF p(1), of am x bs] r have "d1 \<le> d2" by auto
    then show ?thesis using p(2) True by simp
  next
    case False
    then have "b' \<in> set bs" using Cons.prems(2) by simp
    from Cons.IH [OF r this Cons.prems(3)] show ?thesis .
  qed
qed

lemma closestBattery_mem:
  "closestBattery am x bs best = Some (b1, d1) \<Longrightarrow>
     best = Some (b1, d1) \<or> (b1 \<in> set bs \<and> hasAmmo am b1 \<and> d1 = bdist x b1)"
proof (induction bs arbitrary: best)
  case Nil
  then show ?case by simp
next
  case (Cons b bs)
  have r: "closestBattery am x bs (pick am x b best) = Some (b1, d1)"
    using Cons.prems(1) by (simp add: closestBattery_Cons)
  from Cons.IH [OF r]
  have "pick am x b best = Some (b1, d1) \<or> (b1 \<in> set bs \<and> hasAmmo am b1 \<and> d1 = bdist x b1)" .
  then show ?case using pick_cases [of am x b best] by auto
qed

lemma candidates_filter:
  "filter (hasAmmo (ammo s)) (filter (\<lambda>b. b_type b = Battery \<and> \<not> b_isDestroyed b) (buildings s))
     = candidates s"
  by (simp add: candidates_def conj_commute conj_left_commute)

lemma fireMissile_noop:
  assumes "gameState s \<noteq> Playing \<or> showHelp s \<or> candidates s = []"
  shows "fireMissile x y s = s"
proof (cases "gameState s \<noteq> Playing \<or> showHelp s")
  case True
  then show ?thesis by (simp add: fireMissile_def)
next
  case False
  then have c: "candidates s = []" using assms by blast
  have "closestBattery (ammo s) x
          (filter (\<lambda>b. b_type b = Battery \<and> \<not> b_isDestroyed b) (buildings s)) None = None"
    using c by (simp add: closestBattery_None candidates_def)
  then show ?thesis by (simp add: fireMissile_def Let_def)
qed

lemma fireMissile_fires:
  assumes "gameState s = Playing" "\<not> showHelp s" "candidates s \<noteq> []"
  shows "\<exists>b sd. b \<in> set (candidates s) \<and> b_batterySide b = Some sd \<and> ammo s sd > 0 \<and>
           (\<forall>b' \<in> set (candidates s). bdist x b \<le> bdist x b') \<and>
           fireMissile x y s =
             s\<lparr>ammo := (ammo s)(sd := ammo s sd - 1),
               missiles := missiles s @ [playerMissile (nextId s) b x y],
               nextId := Suc (nextId s)\<rparr>"
proof -
  let ?bs = "filter (\<lambda>b. b_type b = Battery \<and> \<not> b_isDestroyed b) (buildings s)"
  let ?r = "closestBattery (ammo s) x ?bs None"
  have ne: "?r \<noteq> None"
    using assms(3) by (simp add: closestBattery_None candidates_def)
  then obtain b d where bd: "?r = Some (b, d)" by (cases ?r) auto
  from closestBattery_mem [OF bd]
  have m: "b \<in> set ?bs" "hasAmmo (ammo s) b" "d = bdist x b" by auto
  have mem: "b \<in> set (candidates s)" using m(1,2) by (simp add: candidates_def)
  have least: "\<forall>b' \<in> set (candidates s). bdist x b \<le> bdist x b'"
  proof
    fix b' assume "b' \<in> set (candidates s)"
    then have "b' \<in> set ?bs" "hasAmmo (ammo s) b'" by (simp_all add: candidates_def)
    from closestBattery_least [OF bd this] show "bdist x b \<le> bdist x b'" using m(3) by simp
  qed
  from m(2) obtain sd where sd: "b_batterySide b = Some sd" "ammo s sd > 0"
    by (auto simp: hasAmmo_def split: option.splits)
  have nonempty: "?bs \<noteq> []" using m(1) by (metis empty_iff list.set(1))
  have "fireMissile x y s =
             s\<lparr>ammo := (ammo s)(sd := ammo s sd - 1),
               missiles := missiles s @ [playerMissile (nextId s) b x y],
               nextId := Suc (nextId s)\<rparr>"
    using assms(1,2) nonempty bd sd
    by (simp add: fireMissile_def Let_def playerMissile_def MISSILE_SPEED_def)
  then show ?thesis using mem sd least by blast
qed

lemma fireMissile_ammo_nonneg:
  assumes "\<forall>sd. 0 \<le> ammo s sd"
  shows "\<forall>sd. 0 \<le> ammo (fireMissile x y s) sd"
proof (cases "gameState s \<noteq> Playing \<or> showHelp s \<or> candidates s = []")
  case True
  then show ?thesis using assms by (simp add: fireMissile_noop)
next
  case False
  then obtain b sd where "ammo s sd > 0"
    "fireMissile x y s =
             s\<lparr>ammo := (ammo s)(sd := ammo s sd - 1),
               missiles := missiles s @ [playerMissile (nextId s) b x y],
               nextId := Suc (nextId s)\<rparr>"
    using fireMissile_fires [of s x y] by blast
  then show ?thesis using assms by simp
qed

lemma INITIAL_AMMO_nonneg: "0 \<le> INITIAL_AMMO sd"
  by (cases sd) simp_all

lemma commit_ammo: "ammo (commit v prev cur) = ammo cur \<or> ammo (commit v prev cur) = INITIAL_AMMO"
  by (simp add: commit_unfold effect_def initGame_def)

lemma react_ammo_nonneg:
  assumes "\<forall>sd. 0 \<le> ammo s sd"
  shows "\<forall>sd. 0 \<le> ammo (react v ev s) sd"
proof -
  have h: "\<forall>sd. 0 \<le> ammo (handler ev s) sd"
    using assms fireMissile_ammo_nonneg [OF assms] by (cases ev) (simp_all add: update_frame)
  show ?thesis
    using commit_ammo [of v s "handler ev s"] h INITIAL_AMMO_nonneg
    by (auto simp: react_def)
qed

lemma reachable_ammo_nonneg: "reachable s \<Longrightarrow> \<forall>sd. 0 \<le> ammo s sd"
proof (induction rule: reachable.induct)
  case (init w h r)
  then show ?case by (simp add: initialApp_def INITIAL_AMMO_nonneg)
next
  case (step s ev v)
  then show ?case using react_ammo_nonneg by blast
qed

text \<open>
  Claim C4. Firing does nothing unless the phase is Playing (and the loop is not
  suspended). Among the standing batteries whose side has ammo left it picks one whose
  horizontal center is closest to the target's x, takes exactly one round from that side
  and appends one player missile that starts at the battery's top center and flies to the
  target. When no battery qualifies nothing changes at all. Ammo never becomes negative:
  neither by one call nor in any state the component can reach.
\<close>

theorem fire_contract:
  "(gameState s \<noteq> Playing \<or> showHelp s \<or> candidates s = [] \<longrightarrow> fireMissile x y s = s) \<and>
   (gameState s = Playing \<and> \<not> showHelp s \<and> candidates s \<noteq> [] \<longrightarrow>
      (\<exists>b sd. b \<in> set (candidates s) \<and> b_batterySide b = Some sd \<and> ammo s sd > 0 \<and>
           (\<forall>b' \<in> set (candidates s). bdist x b \<le> bdist x b') \<and>
           fireMissile x y s =
             s\<lparr>ammo := (ammo s)(sd := ammo s sd - 1),
               missiles := missiles s @ [playerMissile (nextId s) b x y],
               nextId := Suc (nextId s)\<rparr>)) \<and>
   ((\<forall>sd. 0 \<le> ammo s sd) \<longrightarrow> (\<forall>sd. 0 \<le> ammo (fireMissile x y s) sd) \<and>
                              (\<forall>sd. 0 \<le> ammo (react v ev s) sd)) \<and>
   (reachable s \<longrightarrow> (\<forall>sd. 0 \<le> ammo s sd))"
  using fireMissile_noop [of s x y] fireMissile_fires [of s x y]
    fireMissile_ammo_nonneg [of s x y] react_ammo_nonneg [of s v ev] reachable_ammo_nonneg [of s]
  by blast

theorem fire_contract_witness:
  "candidates (freshGame\<lparr>ammo := \<lambda>sd. 0\<rparr>) = [] \<and>
   fireMissile 500 300 (freshGame\<lparr>ammo := \<lambda>sd. 0\<rparr>) = freshGame\<lparr>ammo := \<lambda>sd. 0\<rparr> \<and>
   gameState freshGame = Playing \<and> \<not> showHelp freshGame \<and> candidates freshGame \<noteq> [] \<and>
   (\<exists>b sd. b \<in> set (candidates freshGame) \<and> b_batterySide b = Some sd \<and>
       fireMissile 500 300 freshGame =
         freshGame\<lparr>ammo := (ammo freshGame)(sd := ammo freshGame sd - 1),
           missiles := missiles freshGame @ [playerMissile (nextId freshGame) b 500 300],
           nextId := Suc (nextId freshGame)\<rparr>) \<and>
   (\<forall>sd. 0 \<le> ammo freshGame sd) \<and>
   (\<forall>sd. 0 \<le> ammo (fireMissile 500 300 freshGame) sd) \<and>
   reachable (react env0 PressPlay (initialApp 1000 600 (\<lambda>i. draw_half))) \<and>
   (\<forall>sd. 0 \<le> ammo (react env0 PressPlay (initialApp 1000 600 (\<lambda>i. draw_half))) sd)"
proof -
  let ?d = "freshGame\<lparr>ammo := \<lambda>sd. 0\<rparr>"
  let ?i = "initialApp 1000 600 (\<lambda>i. draw_half)"
  have c0: "candidates ?d = []"
    by (simp add: candidates_def hasAmmo_def split: option.splits)
  have p: "gameState freshGame = Playing" "\<not> showHelp freshGame"
    by (simp_all add: freshGame_def initGame_def)
  have c1: "candidates freshGame \<noteq> []"
    by (simp add: candidates_def hasAmmo_def freshGame_def initGame_def layout_def)
  have a: "\<forall>sd. 0 \<le> ammo freshGame sd"
    by (simp add: freshGame_def initGame_def INITIAL_AMMO_nonneg)
  have r: "reachable (react env0 PressPlay ?i)"
    by (rule reachable.step [OF reachable.init]) (simp add: initialApp_def)
  note t1 = fire_contract [of ?d 500 300 env0 PressPlay]
  note t2 = fire_contract [of freshGame 500 300 env0 PressPlay]
  note t3 = fire_contract [of "react env0 PressPlay ?i" 500 300 env0 PressPlay]
  have n: "fireMissile 500 300 ?d = ?d" using t1 c0 by blast
  have f: "\<exists>b sd. b \<in> set (candidates freshGame) \<and> b_batterySide b = Some sd \<and>
       fireMissile 500 300 freshGame =
         freshGame\<lparr>ammo := (ammo freshGame)(sd := ammo freshGame sd - 1),
           missiles := missiles freshGame @ [playerMissile (nextId freshGame) b 500 300],
           nextId := Suc (nextId freshGame)\<rparr>"
    using t2 p c1 by blast
  have a2: "\<forall>sd. 0 \<le> ammo (fireMissile 500 300 freshGame) sd" using t2 a by blast
  have a3: "\<forall>sd. 0 \<le> ammo (react env0 PressPlay ?i) sd" using t3 r by blast
  show ?thesis using c0 n p c1 f a a2 r a3 by blast
qed

section \<open>Arrival and motion\<close>

lemma hit_near: "hit t b = (if \<not> b_isDestroyed b \<and> near t b then b\<lparr>b_isDestroyed := True\<rparr> else b)"
  by (simp add: hit_def near_def Let_def)

lemma wreck_Nil: "wreck [] b = b"
  by (simp add: wreck_def)

lemma wreck_Cons: "wreck (m # ms) b = wreck ms (hit (m_target m) b)"
  by (simp add: wreck_def hit_near near_def)

lemma foldl_hit:
  "foldl (\<lambda>bs m. map (hit (m_target m)) bs) bs ms = map (wreck ms) bs"
proof (induction ms arbitrary: bs)
  case Nil
  then show ?case by (simp add: wreck_Nil)
next
  case (Cons m ms)
  show ?case by (simp add: Cons.IH wreck_Cons)
qed

lemma stepMissile_eq:
  "stepMissile m s =
     (if arrived m then
        (None, s\<lparr>explosions := explosions s @ [blast (px (m_target m)) (py (m_target m)) (nextId s)],
                 nextId := Suc (nextId s),
                 particles := particles s @ burst 15 (px (m_target m)) (py (m_target m)) (rnd s) (rndIx s),
                 rndIx := rndIx s + 45,
                 buildings := (if m_isEnemy m then map (hit (m_target m)) (buildings s) else buildings s)\<rparr>)
      else (Some (advance m), s))"
  by (simp add: stepMissile_def createExplosion_eq)

lemma missileLoop_eq:
  "missileLoop ms s =
     (map advance (filter (\<lambda>m. \<not> arrived m) ms),
      s\<lparr>explosions := explosions s @ blasts (nextId s) (filter arrived ms),
        particles := particles s @ bursts (rnd s) (rndIx s) (filter arrived ms),
        buildings := foldl (\<lambda>bs m. map (hit (m_target m)) bs) (buildings s) (impacts ms),
        nextId := nextId s + length (filter arrived ms),
        rndIx := rndIx s + 45 * length (filter arrived ms)\<rparr>)"
proof (induction ms arbitrary: s)
  case Nil
  then show ?case by (simp add: impacts_def)
next
  case (Cons m ms)
  show ?case
  proof (cases "arrived m")
    case False
    then show ?thesis by (simp add: stepMissile_eq Cons.IH impacts_def)
  next
    case True
    then show ?thesis by (simp add: stepMissile_eq Cons.IH impacts_def)
  qed
qed

lemma missilePhase_eq:
  "missilePhase s =
     s\<lparr>missiles := map advance (filter (\<lambda>m. \<not> arrived m) (missiles s)),
       explosions := explosions s @ blasts (nextId s) (filter arrived (missiles s)),
       particles := particles s @ bursts (rnd s) (rndIx s) (filter arrived (missiles s)),
       buildings := map (wreck (impacts (missiles s))) (buildings s),
       nextId := nextId s + length (filter arrived (missiles s)),
       rndIx := rndIx s + 45 * length (filter arrived (missiles s))\<rparr>"
  by (simp add: missilePhase_def missileLoop_eq foldl_hit)

lemma remaining_nonneg: "0 \<le> remaining m"
  by (simp add: remaining_def Let_def)

lemma remaining_sq:
  "(remaining m)\<^sup>2 =
     (px (m_target m) - px (m_current m))\<^sup>2 + (py (m_target m) - py (m_current m))\<^sup>2"
  by (simp add: remaining_def Let_def power2_eq_square)

lemma advance_eq:
  "advance m =
     m\<lparr>m_current := \<lparr>px = px (m_current m) + px (direction m) * m_speed m,
                      py = py (m_current m) + py (direction m) * m_speed m\<rparr>\<rparr>"
  by (simp add: advance_def direction_def remaining_def Let_def)

lemma direction_unit:
  assumes "0 < remaining m"
  shows "(px (direction m))\<^sup>2 + (py (direction m))\<^sup>2 = 1"
proof -
  have "(px (direction m))\<^sup>2 + (py (direction m))\<^sup>2 =
        ((px (m_target m) - px (m_current m))\<^sup>2 + (py (m_target m) - py (m_current m))\<^sup>2)
          / (remaining m)\<^sup>2"
    by (simp add: direction_def power_divide add_divide_distrib)
  also have "\<dots> = 1" using assms by (simp add: remaining_sq [symmetric])
  finally show ?thesis .
qed

lemma advance_length:
  assumes "0 < remaining m" "0 \<le> m_speed m"
  shows "sqrt ((px (m_current (advance m)) - px (m_current m))\<^sup>2 +
               (py (m_current (advance m)) - py (m_current m))\<^sup>2) = m_speed m"
proof -
  have "(px (m_current (advance m)) - px (m_current m))\<^sup>2 +
        (py (m_current (advance m)) - py (m_current m))\<^sup>2 =
        ((px (direction m))\<^sup>2 + (py (direction m))\<^sup>2) * (m_speed m)\<^sup>2"
    by (simp add: advance_eq power_mult_distrib distrib_right)
  also have "\<dots> = (m_speed m)\<^sup>2" using direction_unit [OF assms(1)] by simp
  finally show ?thesis using assms(2) by simp
qed

lemma blasts_fields:
  "map (\<lambda>e. (e_x e, e_y e, e_radius e, e_maxRadius e, e_timer e)) (blasts i ms) =
   map (\<lambda>m. (px (m_target m), py (m_target m), 0, 40, 60)) ms"
  by (induction ms arbitrary: i) (simp_all add: blast_def)

lemma length_bursts: "length (bursts r i ms) = 15 * length ms"
  by (induction ms arbitrary: i) (simp_all add: length_burst)

lemma stepMissile_arrived:
  assumes "arrived m"
  shows "fst (stepMissile m s) = None \<and>
         explosions (snd (stepMissile m s)) =
           explosions s @ [blast (px (m_target m)) (py (m_target m)) (nextId s)] \<and>
         (\<exists>ps. particles (snd (stepMissile m s)) = particles s @ ps \<and> length ps = 15 \<and>
               (\<forall>p \<in> set ps. p_x p = px (m_target m) \<and> p_y p = py (m_target m) \<and> p_life p = 1)) \<and>
         buildings (snd (stepMissile m s)) =
           (if m_isEnemy m then map (wreck [m]) (buildings s) else buildings s)"
proof -
  have w: "map (hit (m_target m)) (buildings s) = map (wreck [m]) (buildings s)"
    by (simp add: wreck_Cons wreck_Nil)
  have p: "length (burst 15 (px (m_target m)) (py (m_target m)) (rnd s) (rndIx s)) = 15 \<and>
     (\<forall>p \<in> set (burst 15 (px (m_target m)) (py (m_target m)) (rnd s) (rndIx s)).
         p_x p = px (m_target m) \<and> p_y p = py (m_target m) \<and> p_life p = 1)"
    using burst_at by (simp add: length_burst)
  have "particles (snd (stepMissile m s)) =
          particles s @ burst 15 (px (m_target m)) (py (m_target m)) (rnd s) (rndIx s)"
    using assms by (simp add: stepMissile_eq)
  then have "\<exists>ps. particles (snd (stepMissile m s)) = particles s @ ps \<and> length ps = 15 \<and>
               (\<forall>p \<in> set ps. p_x p = px (m_target m) \<and> p_y p = py (m_target m) \<and> p_life p = 1)"
    using p by blast
  then show ?thesis using assms w by (simp add: stepMissile_eq)
qed

text \<open>
  Claim C3. In every frame a missile whose remaining Euclidean distance to its target is
  strictly below its speed has arrived: it is dropped without being moved, one blast
  (radius 0, maximal radius 40, timer 60) and exactly 15 particles are created at its
  target, and, only when it is an enemy, every standing structure whose center is closer
  than 30 to the target is marked destroyed (\<open>wreck\<close>). A missile that has not arrived
  is kept and moved by its speed along the unit vector towards its target; nothing else
  changes. The last six conjuncts say the same for the whole list of missiles of a frame.
\<close>

theorem arrival_and_motion:
  "(arrived m \<longleftrightarrow> remaining m < m_speed m) \<and>
   (arrived m \<longrightarrow>
      fst (stepMissile m s) = None \<and>
      explosions (snd (stepMissile m s)) =
        explosions s @ [\<lparr>e_x = px (m_target m), e_y = py (m_target m), e_radius = 0,
                         e_maxRadius = 40, e_timer = 60, e_id = nextId s\<rparr>] \<and>
      (\<exists>ps. particles (snd (stepMissile m s)) = particles s @ ps \<and> length ps = 15 \<and>
         (\<forall>p \<in> set ps. p_x p = px (m_target m) \<and> p_y p = py (m_target m) \<and> p_life p = 1)) \<and>
      buildings (snd (stepMissile m s)) =
        (if m_isEnemy m then map (wreck [m]) (buildings s) else buildings s)) \<and>
   (\<not> arrived m \<longrightarrow> stepMissile m s = (Some (advance m), s)) \<and>
   (\<not> arrived m \<and> 0 < m_speed m \<longrightarrow>
      (px (direction m))\<^sup>2 + (py (direction m))\<^sup>2 = 1 \<and>
      advance m =
        m\<lparr>m_current := \<lparr>px = px (m_current m) + px (direction m) * m_speed m,
                         py = py (m_current m) + py (direction m) * m_speed m\<rparr>\<rparr> \<and>
      sqrt ((px (m_current (advance m)) - px (m_current m))\<^sup>2 +
            (py (m_current (advance m)) - py (m_current m))\<^sup>2) = m_speed m) \<and>
   wreck ms b =
     (if \<not> b_isDestroyed b \<and> list_ex (\<lambda>m. near (m_target m) b) ms
      then b\<lparr>b_isDestroyed := True\<rparr> else b) \<and>
   missiles (missilePhase s) = map advance (filter (\<lambda>m. \<not> arrived m) (missiles s)) \<and>
   explosions (missilePhase s) = explosions s @ blasts (nextId s) (filter arrived (missiles s)) \<and>
   map (\<lambda>e. (e_x e, e_y e, e_radius e, e_maxRadius e, e_timer e)) (blasts i ms) =
     map (\<lambda>m. (px (m_target m), py (m_target m), 0, 40, 60)) ms \<and>
   particles (missilePhase s) =
     particles s @ bursts (rnd s) (rndIx s) (filter arrived (missiles s)) \<and>
   length (bursts r j ms) = 15 * length ms \<and>
   buildings (missilePhase s) = map (wreck (impacts (missiles s))) (buildings s)"
proof -
  have mv: "\<not> arrived m \<and> 0 < m_speed m \<longrightarrow>
      (px (direction m))\<^sup>2 + (py (direction m))\<^sup>2 = 1 \<and>
      sqrt ((px (m_current (advance m)) - px (m_current m))\<^sup>2 +
            (py (m_current (advance m)) - py (m_current m))\<^sup>2) = m_speed m"
  proof
    assume a: "\<not> arrived m \<and> 0 < m_speed m"
    then have r: "0 < remaining m" by (simp add: arrived_def)
    show "(px (direction m))\<^sup>2 + (py (direction m))\<^sup>2 = 1 \<and>
      sqrt ((px (m_current (advance m)) - px (m_current m))\<^sup>2 +
            (py (m_current (advance m)) - py (m_current m))\<^sup>2) = m_speed m"
      using direction_unit [OF r] advance_length [OF r] a by simp
  qed
  have ar: "arrived m \<longrightarrow>
      fst (stepMissile m s) = None \<and>
      explosions (snd (stepMissile m s)) =
        explosions s @ [\<lparr>e_x = px (m_target m), e_y = py (m_target m), e_radius = 0,
                         e_maxRadius = 40, e_timer = 60, e_id = nextId s\<rparr>] \<and>
      (\<exists>ps. particles (snd (stepMissile m s)) = particles s @ ps \<and> length ps = 15 \<and>
         (\<forall>p \<in> set ps. p_x p = px (m_target m) \<and> p_y p = py (m_target m) \<and> p_life p = 1)) \<and>
      buildings (snd (stepMissile m s)) =
        (if m_isEnemy m then map (wreck [m]) (buildings s) else buildings s)"
    using stepMissile_arrived [of m s] by (simp add: blast_def)
  have na: "\<not> arrived m \<longrightarrow> stepMissile m s = (Some (advance m), s)"
    by (simp add: stepMissile_eq)
  have ph: "missiles (missilePhase s) = map advance (filter (\<lambda>m. \<not> arrived m) (missiles s)) \<and>
   explosions (missilePhase s) = explosions s @ blasts (nextId s) (filter arrived (missiles s)) \<and>
   particles (missilePhase s) =
     particles s @ bursts (rnd s) (rndIx s) (filter arrived (missiles s)) \<and>
   buildings (missilePhase s) = map (wreck (impacts (missiles s))) (buildings s)"
    by (simp add: missilePhase_eq)
  show ?thesis
    using mv ar na ph advance_eq [of m] blasts_fields [of i ms] length_bursts [of r j ms]
    by (simp add: arrived_def wreck_def)
qed

lemma arrived_landed: "arrived landed"
  by (simp add: arrived_def remaining_def landed_def)

lemma remaining_flying: "remaining flying = 5"
proof -
  have "sqrt 25 = (5::real)" by (rule real_sqrt_unique) simp_all
  then show ?thesis by (simp add: remaining_def flying_def)
qed

theorem arrival_and_motion_witness:
  "arrived landed \<and>
   fst (stepMissile landed (freshGame\<lparr>missiles := [landed, flying]\<rparr>)) = None \<and>
   buildings (snd (stepMissile landed (freshGame\<lparr>missiles := [landed, flying]\<rparr>))) =
     map (wreck [landed]) (buildings (freshGame\<lparr>missiles := [landed, flying]\<rparr>)) \<and>
   \<not> arrived flying \<and> 0 < m_speed flying \<and>
   stepMissile flying (freshGame\<lparr>missiles := [landed, flying]\<rparr>) =
     (Some (advance flying), freshGame\<lparr>missiles := [landed, flying]\<rparr>) \<and>
   (px (direction flying))\<^sup>2 + (py (direction flying))\<^sup>2 = 1 \<and>
   sqrt ((px (m_current (advance flying)) - px (m_current flying))\<^sup>2 +
         (py (m_current (advance flying)) - py (m_current flying))\<^sup>2) = m_speed flying"
proof -
  let ?s = "freshGame\<lparr>missiles := [landed, flying]\<rparr>"
  have e: "m_isEnemy landed" by (simp add: landed_def)
  have n: "\<not> arrived flying" by (simp add: arrived_def remaining_flying) (simp add: flying_def)
  have sp: "0 < m_speed flying" by (simp add: flying_def)
  note a = arrival_and_motion [of landed ?s "[]" "city 100 560 0" 0 "\<lambda>i. draw_half" 0]
  note b = arrival_and_motion [of flying ?s "[]" "city 100 560 0" 0 "\<lambda>i. draw_half" 0]
  have 1: "fst (stepMissile landed ?s) = None \<and>
           buildings (snd (stepMissile landed ?s)) = map (wreck [landed]) (buildings ?s)"
    using a arrived_landed e by simp
  have 2: "stepMissile flying ?s = (Some (advance flying), ?s)"
    using b n by blast
  have 3: "(px (direction flying))\<^sup>2 + (py (direction flying))\<^sup>2 = 1 \<and>
     sqrt ((px (m_current (advance flying)) - px (m_current flying))\<^sup>2 +
         (py (m_current (advance flying)) - py (m_current flying))\<^sup>2) = m_speed flying"
    using b n sp by blast
  show ?thesis using arrived_landed 1 n sp 2 3 by blast
qed

section \<open>Destruction and ammo\<close>

lemma wreck_flag:
  "wreck ms b = b\<lparr>b_isDestroyed := b_isDestroyed b \<or> list_ex (\<lambda>m. near (m_target m) b) ms\<rparr>"
  by (cases "b_isDestroyed b") (simp_all add: wreck_def)

lemma update_buildings:
  "buildings (update t s) =
     (if showHelp s then buildings s else buildings (missilePhase (spawnPhase t s)))"
  by (simp add: update_def checkWinLoss_frame particlePhase_frame explosionPhase_frame)

lemma fireMissile_destroyed_side:
  assumes "\<forall>b \<in> set (buildings s). b_batterySide b = Some sd \<longrightarrow> b_isDestroyed b"
  shows "ammo (fireMissile x y s) sd = ammo s sd"
proof (cases "gameState s \<noteq> Playing \<or> showHelp s \<or> candidates s = []")
  case True
  then show ?thesis by (simp add: fireMissile_noop)
next
  case False
  then obtain b sd' where f: "b \<in> set (candidates s)" "b_batterySide b = Some sd'"
    "fireMissile x y s =
             s\<lparr>ammo := (ammo s)(sd' := ammo s sd' - 1),
               missiles := missiles s @ [playerMissile (nextId s) b x y],
               nextId := Suc (nextId s)\<rparr>"
    using fireMissile_fires [of s x y] by blast
  have "b \<in> set (buildings s)" "\<not> b_isDestroyed b" using f(1) by (simp_all add: candidates_def)
  then have "sd' \<noteq> sd" using assms f(2) by auto
  then show ?thesis using f(3) by simp
qed

text \<open>
  Claim C10. Marking structures destroyed leaves every ammo counter as it was: the
  missile phase, and the whole frame, change of a building nothing but its
  \<open>isDestroyed\<close> flag and do not touch \<open>ammo\<close>. The rounds of a side whose battery is
  destroyed stay in \<open>ammo\<close> and firing cannot spend them, because firing only chooses
  among standing batteries.
\<close>

theorem destruction_keeps_ammo:
  "ammo (missilePhase s) = ammo s \<and>
   ammo (update t s) = ammo s \<and>
   buildings (missilePhase s) =
     map (\<lambda>b. b\<lparr>b_isDestroyed :=
                  b_isDestroyed b \<or> list_ex (\<lambda>m. near (m_target m) b) (impacts (missiles s))\<rparr>)
       (buildings s) \<and>
   map (\<lambda>b. b\<lparr>b_isDestroyed := False\<rparr>) (buildings (update t s)) =
     map (\<lambda>b. b\<lparr>b_isDestroyed := False\<rparr>) (buildings s) \<and>
   ((\<forall>b \<in> set (buildings s). b_batterySide b = Some sd \<longrightarrow> b_isDestroyed b) \<longrightarrow>
      ammo (fireMissile x y s) sd = ammo s sd)"
proof -
  have b: "buildings (missilePhase s) =
     map (\<lambda>b. b\<lparr>b_isDestroyed :=
                  b_isDestroyed b \<or> list_ex (\<lambda>m. near (m_target m) b) (impacts (missiles s))\<rparr>)
       (buildings s)"
    by (simp add: missilePhase_eq wreck_flag)
  have u: "map (\<lambda>b. b\<lparr>b_isDestroyed := False\<rparr>) (buildings (update t s)) =
     map (\<lambda>b. b\<lparr>b_isDestroyed := False\<rparr>) (buildings s)"
    by (simp add: update_buildings missilePhase_eq wreck_flag spawnPhase_frame comp_def)
  show ?thesis
    using b u fireMissile_destroyed_side [of s sd x y]
    by (simp add: missilePhase_frame update_frame)
qed

theorem destruction_keeps_ammo_witness:
  "ammo (update 0 leftDown) = ammo leftDown \<and>
   ammo leftDown SideLeft = 20 \<and>
   ammo (fireMissile 80 300 leftDown) SideLeft = 20"
proof -
  have h: "\<forall>b \<in> set (buildings leftDown). b_batterySide b = Some SideLeft \<longrightarrow> b_isDestroyed b"
    by (auto simp: leftDown_def)
  have a: "ammo leftDown SideLeft = 20"
    by (simp add: leftDown_def freshGame_def initGame_def)
  note t = destruction_keeps_ammo [of leftDown 0 SideLeft 80 300]
  have "ammo (fireMissile 80 300 leftDown) SideLeft = ammo leftDown SideLeft"
    using t h by blast
  then show ?thesis using t a by simp
qed

section \<open>Targets are fixed at spawn\<close>

lemma catchLoop_buildings:
  "catchLoop e ms (s\<lparr>buildings := bs\<rparr>) =
     (fst (catchLoop e ms s), (snd (catchLoop e ms s))\<lparr>buildings := bs\<rparr>)"
proof (induction ms arbitrary: s)
  case Nil
  then show ?case by simp
next
  case (Cons m ms)
  show ?case
  proof (cases "caught e m")
    case True
    have "createExplosion (px (m_current m)) (py (m_current m)) (s\<lparr>buildings := bs, score := score s + 20\<rparr>)
        = (createExplosion (px (m_current m)) (py (m_current m)) (s\<lparr>score := score s + 20\<rparr>))\<lparr>buildings := bs\<rparr>"
      by (simp add: createExplosion_eq)
    then show ?thesis using True Cons.IH by simp
  next
    case False
    then show ?thesis using Cons.IH by (simp add: split_def Let_def)
  qed
qed

lemma explosionLoop_buildings:
  "explosionLoop es (s\<lparr>buildings := bs\<rparr>) =
     (fst (explosionLoop es s), (snd (explosionLoop es s))\<lparr>buildings := bs\<rparr>)"
proof (induction es arbitrary: s)
  case Nil
  then show ?case by simp
next
  case (Cons e es)
  obtain km s1 where a: "catchLoop (grow e) (missiles s) s = (km, s1)"
    by (cases "catchLoop (grow e) (missiles s) s")
  have a': "catchLoop (grow e) (missiles s) (s\<lparr>buildings := bs\<rparr>) = (km, s1\<lparr>buildings := bs\<rparr>)"
    using a by (simp add: catchLoop_buildings)
  have sw: "s1\<lparr>buildings := bs, missiles := km\<rparr> = s1\<lparr>missiles := km, buildings := bs\<rparr>"
    by simp
  have ih: "explosionLoop es (s1\<lparr>buildings := bs, missiles := km\<rparr>) =
     (fst (explosionLoop es (s1\<lparr>missiles := km\<rparr>)),
      (snd (explosionLoop es (s1\<lparr>missiles := km\<rparr>)))\<lparr>buildings := bs\<rparr>)"
    unfolding sw by (rule Cons.IH)
  show ?case
    by (simp add: a a' ih Let_def split_def)
qed

lemma explosionPhase_buildings:
  "explosionPhase (s\<lparr>buildings := bs\<rparr>) = (explosionPhase s)\<lparr>buildings := bs\<rparr>"
  by (simp add: explosionPhase_def split_def Let_def explosionLoop_buildings)

lemma missilePhase_buildings:
  "missilePhase (s\<lparr>buildings := bs\<rparr>) =
     (missilePhase s)\<lparr>buildings := map (wreck (impacts (missiles s))) bs\<rparr>"
  by (simp add: missilePhase_eq)

lemma floor_index:
  assumes "0 \<le> r" "r < 1" "0 < n"
  shows "nat \<lfloor>r * real n\<rfloor> < n"
proof -
  have "r * real n < real n" using assms by simp
  moreover have "0 \<le> r * real n" using assms by simp
  ultimately show ?thesis by (simp add: floor_less_iff nat_less_iff)
qed

lemma draw_range: "0 \<le> Rep_unit_real u \<and> Rep_unit_real u < 1"
  using Rep_unit_real [of u] by simp

lemma spawnEnemy_target:
  assumes "filter (\<lambda>b. \<not> b_isDestroyed b) (buildings s) \<noteq> []"
  shows "\<exists>b m. b \<in> set (buildings s) \<and> \<not> b_isDestroyed b \<and>
           missiles (spawnEnemy s) = missiles s @ [m] \<and> m_isEnemy m \<and> m_target m = center b"
proof -
  let ?live = "filter (\<lambda>b. \<not> b_isDestroyed b) (buildings s)"
  let ?k = "nat \<lfloor>Rep_unit_real (rnd s (rndIx s)) * real (length ?live)\<rfloor>"
  have n: "0 < length ?live" using assms by simp
  have k: "?k < length ?live" using floor_index [OF _ _ n] draw_range by blast
  then have "?live ! ?k \<in> set ?live" by (rule nth_mem)
  then have b: "?live ! ?k \<in> set (buildings s)" "\<not> b_isDestroyed (?live ! ?k)" by auto
  have "\<exists>m. missiles (spawnEnemy s) = missiles s @ [m] \<and> m_isEnemy m \<and> m_target m = center (?live ! ?k)"
    using assms by (simp add: spawnEnemy_def mathRandom_def Let_def split_def)
  then show ?thesis using b by blast
qed

text \<open>
  Claim C9. An enemy missile's target is computed when it is spawned, as a copy of the
  coordinates of the center of the chosen standing structure. From then on the target
  never changes, and the missiles' motion, their arrival and the place of the blast do
  not read the buildings: with any other list \<open>bs\<close> of buildings (for instance the same
  structures marked destroyed) the missiles and the explosions after the missile phase
  and after the catch phase are the same, and an arriving missile detonates at its
  target.
\<close>

theorem target_fixed_at_spawn:
  "(filter (\<lambda>b. \<not> b_isDestroyed b) (buildings s) \<noteq> [] \<longrightarrow>
      (\<exists>b m. b \<in> set (buildings s) \<and> \<not> b_isDestroyed b \<and>
           missiles (spawnEnemy s) = missiles s @ [m] \<and> m_isEnemy m \<and>
           m_target m = \<lparr>px = b_x b + b_width b / 2, py = b_y b + b_height b / 2\<rparr>)) \<and>
   m_target (advance m) = m_target m \<and>
   missiles (missilePhase (s\<lparr>buildings := bs\<rparr>)) = missiles (missilePhase s) \<and>
   explosions (missilePhase (s\<lparr>buildings := bs\<rparr>)) = explosions (missilePhase s) \<and>
   missiles (explosionPhase (missilePhase (s\<lparr>buildings := bs\<rparr>))) =
     missiles (explosionPhase (missilePhase s)) \<and>
   explosions (explosionPhase (missilePhase (s\<lparr>buildings := bs\<rparr>))) =
     explosions (explosionPhase (missilePhase s)) \<and>
   (arrived m \<longrightarrow>
      explosions (snd (stepMissile m (s\<lparr>buildings := bs\<rparr>))) =
        explosions s @ [blast (px (m_target m)) (py (m_target m)) (nextId s)])"
proof -
  have sp: "filter (\<lambda>b. \<not> b_isDestroyed b) (buildings s) \<noteq> [] \<longrightarrow>
      (\<exists>b m. b \<in> set (buildings s) \<and> \<not> b_isDestroyed b \<and>
           missiles (spawnEnemy s) = missiles s @ [m] \<and> m_isEnemy m \<and>
           m_target m = \<lparr>px = b_x b + b_width b / 2, py = b_y b + b_height b / 2\<rparr>)"
    using spawnEnemy_target [of s] by (simp add: center_def)
  have ad: "m_target (advance m) = m_target m" by (simp add: advance_eq)
  have ar: "arrived m \<longrightarrow>
      explosions (snd (stepMissile m (s\<lparr>buildings := bs\<rparr>))) =
        explosions s @ [blast (px (m_target m)) (py (m_target m)) (nextId s)]"
    by (simp add: stepMissile_eq)
  show ?thesis
    using sp ad ar
    by (simp add: missilePhase_buildings explosionPhase_buildings)
qed

theorem target_fixed_at_spawn_witness:
  "filter (\<lambda>b. \<not> b_isDestroyed b) (buildings freshGame) \<noteq> [] \<and>
   (\<exists>b m. b \<in> set (buildings freshGame) \<and> \<not> b_isDestroyed b \<and>
       missiles (spawnEnemy freshGame) = missiles freshGame @ [m] \<and> m_isEnemy m \<and>
       m_target m = \<lparr>px = b_x b + b_width b / 2, py = b_y b + b_height b / 2\<rparr>) \<and>
   arrived landed \<and>
   explosions (snd (stepMissile landed (freshGame\<lparr>buildings := buildings leftDown\<rparr>))) =
     explosions freshGame @ [blast 80 545 (nextId freshGame)] \<and>
   missiles (missilePhase (freshGame\<lparr>missiles := [flying], buildings := buildings leftDown\<rparr>)) =
     missiles (missilePhase (freshGame\<lparr>missiles := [flying]\<rparr>))"
proof -
  have l: "filter (\<lambda>b. \<not> b_isDestroyed b) (buildings freshGame) \<noteq> []"
    by (simp add: freshGame_def initGame_def layout_def)
  have a: "arrived landed" by (simp add: arrived_def remaining_def landed_def)
  have t: "px (m_target landed) = 80 \<and> py (m_target landed) = 545" by (simp add: landed_def)
  note w1 = target_fixed_at_spawn [of freshGame landed "buildings leftDown"]
  note w2 = target_fixed_at_spawn [of "freshGame\<lparr>missiles := [flying]\<rparr>" landed "buildings leftDown"]
  have 1: "\<exists>b m. b \<in> set (buildings freshGame) \<and> \<not> b_isDestroyed b \<and>
       missiles (spawnEnemy freshGame) = missiles freshGame @ [m] \<and> m_isEnemy m \<and>
       m_target m = \<lparr>px = b_x b + b_width b / 2, py = b_y b + b_height b / 2\<rparr>"
    using w1 l by blast
  have 2: "explosions (snd (stepMissile landed (freshGame\<lparr>buildings := buildings leftDown\<rparr>))) =
     explosions freshGame @ [blast 80 545 (nextId freshGame)]"
    using w1 a t by simp
  have 3: "missiles (missilePhase (freshGame\<lparr>missiles := [flying], buildings := buildings leftDown\<rparr>)) =
     missiles (missilePhase (freshGame\<lparr>missiles := [flying]\<rparr>))"
    using w2 by blast
  show ?thesis using l 1 a 2 3 by blast
qed

section \<open>The spawn interval\<close>

lemma spawnRate_eq:
  "spawnRate sc d =
     max 500 (2000 - (real_of_int sc / 100) * 200) *
       (case d of Easy \<Rightarrow> 1.5 | Medium \<Rightarrow> 1 | Hard \<Rightarrow> 0.7)"
  by (cases d) (simp_all add: spawnRate_def Let_def)

section \<open>Suspension by the help overlay\<close>

lemma fireMissile_showHelp: "showHelp (fireMissile x y s) = showHelp s"
proof (cases "gameState s \<noteq> Playing \<or> showHelp s \<or> candidates s = []")
  case True
  then show ?thesis by (simp add: fireMissile_noop)
next
  case False
  then obtain b sd where
    "fireMissile x y s =
             s\<lparr>ammo := (ammo s)(sd := ammo s sd - 1),
               missiles := missiles s @ [playerMissile (nextId s) b x y],
               nextId := Suc (nextId s)\<rparr>"
    using fireMissile_fires [of s x y] by blast
  then show ?thesis by simp
qed

lemma react_help_closed:
  assumes "\<not> showHelp s" "enabled ev s"
  shows "\<not> showHelp (react v ev s)"
proof -
  let ?c = "handler ev s"
  have e: "\<not> showHelp (effect v ?c) \<or> effect v ?c = ?c"
    by (simp add: effect_def initGame_def)
  have e2: "\<not> showHelp (effect v (effect v ?c)) \<or> effect v (effect v ?c) = effect v ?c"
    by (simp add: effect_def initGame_def)
  show ?thesis
  proof (cases "showHelp ?c")
    case False
    then show ?thesis using e e2 by (auto simp: react_def commit_unfold)
  next
    case True
    then have ev: "ev = OpenHelp"
      using assms(1) by (cases ev) (simp_all add: update_frame fireMissile_showHelp)
    then have "gameState ?c = Playing" using assms(2) by simp
    then have "\<not> showHelp (effect v ?c)" by (simp add: effect_def initGame_def)
    moreover have "deps ?c \<noteq> deps s" using True assms(1) by (auto simp: deps_def)
    ultimately show ?thesis using e2 by (auto simp: react_def commit_unfold)
  qed
qed

text \<open>
  In this component the overlay does not stay open: no state the component reaches has
  \<open>showHelp\<close> set.
\<close>

lemma reachable_help_closed: "reachable s \<Longrightarrow> \<not> showHelp s"
proof (induction rule: reachable.induct)
  case (init w h r)
  then show ?case by (simp add: initialApp_def)
next
  case (step s ev v)
  then show ?case using react_help_closed by blast
qed

section \<open>The catch phase\<close>

lemma catchLoop_kept: "fst (catchLoop e ms s) = filter (\<lambda>m. \<not> caught e m) ms"
  by (induction ms arbitrary: s) (simp_all add: split_def Let_def)

lemma catchLoop_score:
  "score (snd (catchLoop e ms s)) = score s + 20 * int (length (filter (caught e) ms))"
  by (induction ms arbitrary: s) (simp_all add: split_def Let_def createExplosion_eq)

lemma catchLoop_pushes:
  "caught e m \<Longrightarrow>
     explosions (snd (catchLoop e [m] s)) =
       explosions s @ [blast (px (m_current m)) (py (m_current m)) (nextId s)]"
  by (simp add: createExplosion_eq)

lemma explosionLoop_kept:
  "fst (explosionLoop es s) = filter (\<lambda>e. 0 < e_timer e) (map grow es)"
  by (induction es arbitrary: s) (simp_all add: split_def Let_def)

lemma explosionLoop_missiles:
  "missiles (snd (explosionLoop es s)) =
     filter (\<lambda>m. \<not> list_ex (\<lambda>e. caught (grow e) m) es) (missiles s)"
proof (induction es arbitrary: s)
  case Nil
  then show ?case by simp
next
  case (Cons e es)
  have "filter (\<lambda>m. \<not> list_ex (\<lambda>e. caught (grow e) m) es)
          (filter (\<lambda>m. \<not> caught (grow e) m) (missiles s)) =
        filter (\<lambda>m. \<not> list_ex (\<lambda>e. caught (grow e) m) (e # es)) (missiles s)"
    by (simp add: conj_commute)
  then show ?case
    by (simp add: split_def Let_def Cons.IH catchLoop_kept)
qed

lemma length_filter_split:
  "int (length (filter P xs)) = int (length xs) - int (length (filter (\<lambda>x. \<not> P x) xs))"
  using sum_length_filter_compl [of P xs] by simp

lemma explosionLoop_score:
  "score (snd (explosionLoop es s)) =
     score s + 20 * (int (length (missiles s)) - int (length (missiles (snd (explosionLoop es s)))))"
proof (induction es arbitrary: s)
  case Nil
  then show ?case by simp
next
  case (Cons e es)
  let ?c = "catchLoop (grow e) (missiles s) s"
  let ?s2 = "(snd ?c)\<lparr>missiles := fst ?c\<rparr>"
  have l: "snd (explosionLoop (e # es) s) = snd (explosionLoop es ?s2)"
    by (simp add: split_def Let_def)
  have c: "score ?s2 = score s + 20 * (int (length (missiles s)) - int (length (missiles ?s2)))"
    using length_filter_split [of "caught (grow e)" "missiles s"]
    by (simp add: catchLoop_score catchLoop_kept)
  show ?case unfolding l using Cons.IH [of ?s2] c by simp
qed

lemma explosionPhase_explosions:
  "explosions (explosionPhase s) = filter (\<lambda>e. 0 < e_timer e) (map grow (explosions s))"
  by (simp add: explosionPhase_def split_def Let_def explosionLoop_kept)

lemma explosionPhase_missiles:
  "missiles (explosionPhase s) =
     filter (\<lambda>m. \<not> list_ex (\<lambda>e. caught (grow e) m) (explosions s)) (missiles s)"
  by (simp add: explosionPhase_def split_def Let_def explosionLoop_missiles)

lemma explosionPhase_score:
  "score (explosionPhase s) =
     score s + 20 * (int (length (missiles s)) - int (length (missiles (explosionPhase s))))"
  using explosionLoop_score [of "explosions s" s]
  by (simp add: explosionPhase_def split_def Let_def)

lemma update_score:
  "\<not> showHelp s \<Longrightarrow> score (update t s) = score (explosionPhase (missilePhase (spawnPhase t s)))"
  by (simp add: update_def checkWinLoss_frame particlePhase_frame)

lemma update_explosions:
  "\<not> showHelp s \<Longrightarrow>
     explosions (update t s) = explosions (explosionPhase (missilePhase (spawnPhase t s)))"
  by (simp add: update_def checkWinLoss_frame particlePhase_frame)

lemma react_Frame_reset:
  assumes "gameState (update t s) = Playing" "score (update t s) \<noteq> score s"
  shows "react v (Frame t) s =
           (initGame (innerWidth v) (innerHeight v) (update t s))\<lparr>lastEnemySpawn := now v\<rparr>"
proof -
  let ?u = "update t s"
  let ?i = "(initGame (innerWidth v) (innerHeight v) ?u)\<lparr>lastEnemySpawn := now v\<rparr>"
  have d: "deps ?u \<noteq> deps s" using assms(2) by (simp add: deps_def)
  have e: "effect v ?u = ?i" using assms(1) by (simp add: effect_def)
  have e2: "effect v ?i = ?i" using assms(1) by (simp add: effect_def initGame_def)
  show ?thesis using d by (simp add: react_def commit_unfold e e2)
qed

subsection \<open>One frame on a concrete input\<close>

lemma catchGame_fields:
  "gameState catchGame = Playing" "\<not> showHelp catchGame" "score catchGame = 0"
  "difficulty catchGame = Medium" "lastEnemySpawn catchGame = 5000"
  "missiles catchGame = [raider]" "explosions catchGame = [blast0]"
  "buildings catchGame = buildings leftDown" "nextId catchGame = 3"
  by (simp_all add: catchGame_def leftDown_def freshGame_def initGame_def initialApp_def)

lemma spawnPhase_catchGame: "spawnPhase 5016 catchGame = catchGame"
  by (simp add: spawnPhase_def catchGame_fields spawnRate_eq)

lemma remaining_raider: "remaining raider = 25"
proof -
  have "sqrt 625 = (25::real)" by (rule real_sqrt_unique) simp_all
  then show ?thesis by (simp add: remaining_def raider_def)
qed

lemma raider_flies: "\<not> arrived raider"
  by (simp add: arrived_def remaining_raider) (simp add: raider_def)

lemma advance_raider: "advance raider = raider\<lparr>m_current := \<lparr>px = 80, py = 521\<rparr>\<rparr>"
  by (simp add: advance_eq direction_def remaining_raider) (simp add: raider_def)

lemma missilePhase_catchGame:
  "missilePhase catchGame = catchGame\<lparr>missiles := [advance raider]\<rparr>"
proof -
  have w: "wreck [] = (\<lambda>b. b)" by (rule ext) (simp add: wreck_Nil)
  show ?thesis
    by (simp add: missilePhase_eq raider_flies impacts_def w catchGame_def)
qed

lemma grow_blast0: "grow blast0 = blast0\<lparr>e_timer := 30, e_radius := 40\<rparr>"
proof -
  have "(1 - 30 / 60) * pi = pi / 2" by simp
  then have "sin ((1 - 30 / 60) * pi) = 1" by (simp only: sin_pi_half)
  then show ?thesis by (simp add: grow_def blast0_def EXPLOSION_DURATION_def Let_def)
qed

lemma raider_caught: "caught (grow blast0) (advance raider)"
proof -
  have "sqrt 576 = (24::real)" by (rule real_sqrt_unique) simp_all
  then show ?thesis
    by (simp add: caught_def grow_blast0 advance_raider) (simp add: raider_def blast0_def)
qed

lemma explosionPhase_catchGame:
  "missiles (explosionPhase (catchGame\<lparr>missiles := [advance raider]\<rparr>)) = [] \<and>
   score (explosionPhase (catchGame\<lparr>missiles := [advance raider]\<rparr>)) = 20 \<and>
   explosions (explosionPhase (catchGame\<lparr>missiles := [advance raider]\<rparr>)) = [grow blast0]"
proof -
  let ?s = "catchGame\<lparr>missiles := [advance raider]\<rparr>"
  have m: "missiles (explosionPhase ?s) = []"
    using raider_caught by (simp add: explosionPhase_missiles catchGame_fields)
  have sc: "score (explosionPhase ?s) = 20"
    using explosionPhase_score [of ?s] m by (simp add: catchGame_fields)
  have "0 < e_timer (grow blast0)" by (simp add: grow_blast0)
  then have "explosions (explosionPhase ?s) = [grow blast0]"
    by (simp add: explosionPhase_explosions catchGame_fields)
  then show ?thesis using m sc by simp
qed

lemma update_catchGame:
  "score (update 5016 catchGame) = 20 \<and> explosions (update 5016 catchGame) = [grow blast0] \<and>
   gameState (update 5016 catchGame) = Playing \<and> missiles (update 5016 catchGame) = []"
proof -
  have b: "buildings (update 5016 catchGame) = buildings leftDown"
    by (simp add: update_buildings catchGame_fields spawnPhase_catchGame missilePhase_catchGame)
  have a: "length (activeBatteries (buildings leftDown)) \<noteq> 0"
    by (simp add: activeBatteries_def leftDown_def freshGame_def initGame_def layout_def)
  have g: "gameState (update 5016 catchGame) = Playing"
    using update_gameState [of catchGame 5016] a by (simp add: catchGame_fields b)
  have m: "missiles (update 5016 catchGame) = []"
    using explosionPhase_catchGame
    by (simp add: update_def catchGame_fields checkWinLoss_frame particlePhase_frame
        spawnPhase_catchGame missilePhase_catchGame)
  show ?thesis
    using explosionPhase_catchGame g m
    by (simp add: update_score update_explosions catchGame_fields spawnPhase_catchGame
        missilePhase_catchGame)
qed

subsection \<open>The score across renders\<close>

lemma react_score_Playing:
  assumes "gameState s = Playing \<longrightarrow> score s = 0" "enabled ev s"
  shows "gameState (react v ev s) = Playing \<longrightarrow> score (react v ev s) = 0"
proof
  assume p: "gameState (react v ev s) = Playing"
  let ?c = "handler ev s"
  have g: "gameState ?c = Playing" using p by (simp add: react_def commit_gameState)
  have e: "score (effect v ?c) = 0" "score (effect v (effect v ?c)) = 0"
    using g by (simp_all add: effect_def initGame_def)
  show "score (react v ev s) = 0"
  proof (cases "deps ?c = deps s")
    case True
    then have "gameState s = Playing" "score ?c = score s" using g by (simp_all add: deps_def)
    then show ?thesis using True assms(1) by (simp add: react_def commit_unfold)
  next
    case False
    then show ?thesis using e by (simp add: react_def commit_unfold)
  qed
qed

lemma reachable_score: "reachable s \<Longrightarrow> gameState s = Playing \<longrightarrow> score s = 0"
proof (induction rule: reachable.induct)
  case (init w h r)
  then show ?case by (simp add: initialApp_def)
next
  case (step s ev v)
  then show ?case using react_score_Playing by blast
qed

lemma handler_not_Won:
  assumes "gameState s \<noteq> Won" "gameState s = Playing \<longrightarrow> score s = 0" "enabled ev s"
  shows "gameState (handler ev s) \<noteq> Won"
proof (cases ev)
  case (Frame time)
  then have p: "gameState s = Playing" using assms(3) by simp
  then have z: "score s = 0" using assms(2) by simp
  show ?thesis
  proof (cases "showHelp s")
    case True
    then show ?thesis using Frame assms(1) by (simp add: update_def)
  next
    case False
    then show ?thesis using Frame p z update_gameState [of s time] by simp
  qed
next
  case (Click x y)
  then show ?thesis using assms(1) by (simp add: fireMissile_gameState)
qed (use assms(1) in simp_all)

lemma reachable_not_Won: "reachable s \<Longrightarrow> gameState s \<noteq> Won"
proof (induction rule: reachable.induct)
  case (init w h r)
  then show ?case by (simp add: initialApp_def)
next
  case (step s ev v)
  then show ?case
    using handler_not_Won [of s ev] reachable_score [of s]
    by (simp add: react_def commit_gameState)
qed

text \<open>
  The effect also runs again after every shot, because \<open>ammo\<close> is a dependency of
  \<open>update\<close>: once the click has been processed the interceptor is gone and the ammo is
  full again.
\<close>

lemma react_Click_fired:
  assumes "gameState s = Playing" "\<not> showHelp s" "candidates s \<noteq> []"
  shows "missiles (react v (Click x y) s) = [] \<and> ammo (react v (Click x y) s) = INITIAL_AMMO"
proof -
  let ?c = "fireMissile x y s"
  obtain b sd where f: "?c =
             s\<lparr>ammo := (ammo s)(sd := ammo s sd - 1),
               missiles := missiles s @ [playerMissile (nextId s) b x y],
               nextId := Suc (nextId s)\<rparr>"
    using fireMissile_fires [OF assms, of x y] by blast
  have "(ammo s)(sd := ammo s sd - 1) \<noteq> ammo s"
    by (simp add: fun_upd_idem_iff)
  then have d: "deps ?c \<noteq> deps s" by (simp add: f deps_def)
  have g: "gameState ?c = Playing" using assms(1) by (simp add: fireMissile_gameState)
  have e: "missiles (effect v ?c) = [] \<and> ammo (effect v ?c) = INITIAL_AMMO \<and>
           gameState (effect v ?c) = Playing"
    using g by (simp add: effect_def initGame_def)
  then have e2: "missiles (effect v (effect v ?c)) = [] \<and>
                 ammo (effect v (effect v ?c)) = INITIAL_AMMO"
    by (simp add: effect_def initGame_def)
  show ?thesis using d e e2 by (simp add: react_def commit_unfold)
qed

text \<open>
  Claim C2, as the code has it. In the catch phase every blast is grown in creation
  order; an enemy missile is removed by the first grown blast that contains it, and each
  removal adds exactly 20 to the score, so a missile inside two blasts scores once. The
  explosions after the phase are the grown old ones whose timer is still positive:
  the blast that \<open>createExplosion\<close> pushes for a caught missile is not among them.
  And the score does not stay: a frame that changes the score while the phase stays
  Playing changes the effect's dependencies, the effect runs \<open>initGame\<close>, and the score
  is 0 again with the phase still Playing. In every state the component reaches while
  Playing the score is 0, and Won is never reached.
\<close>

theorem catch_then_reset:
  "grow e =
     e\<lparr>e_timer := e_timer e - 1,
       e_radius := sin ((1 - real_of_int (e_timer e - 1) / 60) * pi) * e_maxRadius e\<rparr> \<and>
   score (explosionPhase s) =
     score s + 20 * (int (length (missiles s)) - int (length (missiles (explosionPhase s)))) \<and>
   missiles (explosionPhase s) =
     filter (\<lambda>m. \<not> list_ex (\<lambda>e. caught (grow e) m) (explosions s)) (missiles s) \<and>
   explosions (explosionPhase s) = filter (\<lambda>e. 0 < e_timer e) (map grow (explosions s)) \<and>
   (gameState (update t s) = Playing \<and> score (update t s) \<noteq> score s \<longrightarrow>
      deps (update t s) \<noteq> deps s \<and>
      gameState (effect v (update t s)) = Playing \<and>
      score (effect v (update t s)) = 0 \<and>
      score (react v (Frame t) s) = 0) \<and>
   (reachable s \<longrightarrow> (gameState s = Playing \<longrightarrow> score s = 0) \<and> gameState s \<noteq> Won)"
proof (intro conjI impI)
  show "grow e =
     e\<lparr>e_timer := e_timer e - 1,
       e_radius := sin ((1 - real_of_int (e_timer e - 1) / 60) * pi) * e_maxRadius e\<rparr>"
    by (simp add: grow_def Let_def EXPLOSION_DURATION_def)
  show "score (explosionPhase s) =
     score s + 20 * (int (length (missiles s)) - int (length (missiles (explosionPhase s))))"
    by (rule explosionPhase_score)
  show "missiles (explosionPhase s) =
     filter (\<lambda>m. \<not> list_ex (\<lambda>e. caught (grow e) m) (explosions s)) (missiles s)"
    by (rule explosionPhase_missiles)
  show "explosions (explosionPhase s) = filter (\<lambda>e. 0 < e_timer e) (map grow (explosions s))"
    by (rule explosionPhase_explosions)
next
  assume a: "gameState (update t s) = Playing \<and> score (update t s) \<noteq> score s"
  then show "deps (update t s) \<noteq> deps s" by (simp add: deps_def)
  show "gameState (effect v (update t s)) = Playing" using a by (simp add: effect_gameState)
  show "score (effect v (update t s)) = 0" using a by (simp add: effect_def initGame_def)
  show "score (react v (Frame t) s) = 0"
    using a by (simp add: react_Frame_reset initGame_def)
next
  assume "reachable s" "gameState s = Playing"
  then show "score s = 0" using reachable_score by blast
next
  assume "reachable s"
  then show "gameState s \<noteq> Won" by (rule reachable_not_Won)
qed

theorem catch_then_reset_witness:
  "gameState catchGame = Playing \<and> score catchGame = 0 \<and>
   gameState (update 5016 catchGame) = Playing \<and> score (update 5016 catchGame) = 20 \<and>
   explosions (update 5016 catchGame) = [grow blast0] \<and>
   gameState (effect env0 (update 5016 catchGame)) = Playing \<and>
   score (effect env0 (update 5016 catchGame)) = 0 \<and>
   score (react env0 (Frame 5016) catchGame) = 0 \<and>
   reachable (react env0 PressPlay (initialApp 1000 600 (\<lambda>i. draw_half))) \<and>
   gameState (react env0 PressPlay (initialApp 1000 600 (\<lambda>i. draw_half))) = Playing \<and>
   score (react env0 PressPlay (initialApp 1000 600 (\<lambda>i. draw_half))) = 0"
proof -
  let ?i = "initialApp 1000 600 (\<lambda>i. draw_half)"
  note u = update_catchGame
  have ne: "score (update 5016 catchGame) \<noteq> score catchGame"
    using u by (simp add: catchGame_fields)
  note t = catch_then_reset [of blast0 catchGame 5016 env0]
  have 1: "gameState (effect env0 (update 5016 catchGame)) = Playing \<and>
     score (effect env0 (update 5016 catchGame)) = 0 \<and>
     score (react env0 (Frame 5016) catchGame) = 0"
    using t u ne by blast
  have r: "reachable (react env0 PressPlay ?i)"
    by (rule reachable.step [OF reachable.init]) (simp add: initialApp_def)
  have g: "gameState (react env0 PressPlay ?i) = Playing"
    by (simp add: react_def commit_gameState)
  have 2: "score (react env0 PressPlay ?i) = 0"
    using catch_then_reset [of blast0 "react env0 PressPlay ?i" 16 env0] r g by blast
  show ?thesis using catchGame_fields(1,3) u 1 r g 2 by blast
qed

subsection \<open>The blast of a caught missile\<close>

lemma grow_timer: "e_timer (grow e) = e_timer e - 1"
  by (simp add: grow_def Let_def)

lemma grow_id: "e_id (grow e) = e_id e"
  by (simp add: grow_def Let_def)

lemma update_explosions_eq:
  "\<not> showHelp s \<Longrightarrow>
     explosions (update t s) =
       filter (\<lambda>e. 0 < e_timer e) (map grow (explosions (missilePhase (spawnPhase t s))))"
  by (simp add: update_explosions explosionPhase_explosions)

lemma update_lastEnemySpawn_catchGame: "lastEnemySpawn (update 5016 catchGame) = 5000"
  by (simp add: update_def catchGame_fields checkWinLoss_frame particlePhase_frame
      explosionPhase_frame missilePhase_frame spawnPhase_catchGame)

lemma next_frame_catchGame:
  "explosions (update 5032 (update 5016 catchGame)) = [grow (grow blast0)]"
proof -
  let ?u = "update 5016 catchGame"
  have f: "\<not> showHelp ?u" "difficulty ?u = Medium"
    by (simp_all add: update_frame catchGame_fields)
  have sp: "spawnPhase 5032 ?u = ?u"
    using update_catchGame
    by (simp add: spawnPhase_def f update_lastEnemySpawn_catchGame spawnRate_eq)
  have mp: "explosions (missilePhase ?u) = [grow blast0]"
    using update_catchGame by (simp add: missilePhase_eq)
  have "0 < e_timer (grow (grow blast0))" by (simp add: grow_timer blast0_def)
  then show ?thesis by (simp add: update_explosions_eq f sp mp)
qed

text \<open>
  Claim C7, as the code has it. When a grown blast catches a missile, \<open>createExplosion\<close>
  appends a new blast (maximal radius 40, timer 60, a fresh identity) at the missile's
  position to the array that the running \<open>filter\<close> reads. It takes no part in the
  catch test of that frame: the loop runs over the old elements only. But the result of
  the \<open>filter\<close>, which replaces the array, holds only the grown old blasts whose timer
  is positive; so after the frame no blast carries a new identity, and the blast of the
  caught missile is not there to grow in the next frame.
\<close>

theorem secondary_blast_dropped:
  "(caught (grow e) m \<longrightarrow>
      explosions (snd (catchLoop (grow e) [m] s)) =
        explosions s @ [\<lparr>e_x = px (m_current m), e_y = py (m_current m), e_radius = 0,
                         e_maxRadius = 40, e_timer = 60, e_id = nextId s\<rparr>]) \<and>
   fst (explosionLoop es s) = filter (\<lambda>e. 0 < e_timer e) (map grow es) \<and>
   explosions (explosionPhase s) = filter (\<lambda>e. 0 < e_timer e) (map grow (explosions s)) \<and>
   set (map e_id (explosions (explosionPhase s))) \<subseteq> set (map e_id (explosions s)) \<and>
   (\<not> showHelp s \<longrightarrow>
      explosions (update t s) =
        filter (\<lambda>e. 0 < e_timer e) (map grow (explosions (missilePhase (spawnPhase t s)))))"
proof -
  have "set (map e_id (explosions (explosionPhase s))) \<subseteq> set (map e_id (explosions s))"
    by (auto simp: explosionPhase_explosions grow_id)
  then show ?thesis
    using catchLoop_pushes [of "grow e" m s] update_explosions_eq [of s t]
    by (simp add: explosionLoop_kept explosionPhase_explosions blast_def)
qed

theorem secondary_blast_dropped_witness:
  "caught (grow blast0) (advance raider) \<and>
   explosions (snd (catchLoop (grow blast0) [advance raider]
                     (catchGame\<lparr>missiles := [advance raider]\<rparr>))) =
     [blast0, \<lparr>e_x = 80, e_y = 521, e_radius = 0, e_maxRadius = 40, e_timer = 60, e_id = 3\<rparr>] \<and>
   \<not> showHelp catchGame \<and>
   missiles (update 5016 catchGame) = [] \<and>
   score (update 5016 catchGame) = 20 \<and>
   explosions (update 5016 catchGame) = [grow blast0] \<and>
   explosions (update 5032 (update 5016 catchGame)) = [grow (grow blast0)] \<and>
   map e_id (explosions (update 5032 (update 5016 catchGame))) = [2]"
proof -
  let ?s = "catchGame\<lparr>missiles := [advance raider]\<rparr>"
  note t = secondary_blast_dropped [of blast0 "advance raider" ?s "[blast0]" 5016]
  have "explosions (snd (catchLoop (grow blast0) [advance raider] ?s)) =
        explosions ?s @ [\<lparr>e_x = px (m_current (advance raider)), e_y = py (m_current (advance raider)),
                          e_radius = 0, e_maxRadius = 40, e_timer = 60, e_id = nextId ?s\<rparr>]"
    using t raider_caught by blast
  then have 1: "explosions (snd (catchLoop (grow blast0) [advance raider] ?s)) =
     [blast0, \<lparr>e_x = 80, e_y = 521, e_radius = 0, e_maxRadius = 40, e_timer = 60, e_id = 3\<rparr>]"
    by (simp add: catchGame_fields advance_raider)
  have 2: "map e_id (explosions (update 5032 (update 5016 catchGame))) = [2]"
    by (simp add: next_frame_catchGame grow_id blast0_def)
  show ?thesis
    using raider_caught 1 catchGame_fields(2) update_catchGame next_frame_catchGame 2 by blast
qed

section \<open>Opening the help overlay\<close>

lemma react_OpenHelp:
  assumes "gameState s = Playing" "\<not> showHelp s"
  shows "react v OpenHelp s =
           (initGame (innerWidth v) (innerHeight v) s)\<lparr>lastEnemySpawn := now v\<rparr>"
proof -
  let ?c = "s\<lparr>showHelp := True\<rparr>"
  let ?i = "(initGame (innerWidth v) (innerHeight v) s)\<lparr>lastEnemySpawn := now v\<rparr>"
  have d: "deps ?c \<noteq> deps s" using assms(2) by (simp add: deps_def)
  have e: "effect v ?c = ?i" using assms(1) by (simp add: effect_def initGame_def)
  have e2: "effect v ?i = ?i" using assms(1) by (simp add: effect_def initGame_def)
  show ?thesis using d by (simp add: react_def commit_unfold e e2)
qed

text \<open>
  Claim C8, as the code has it. The branch of \<open>update\<close> that suspends the loop does
  what it should: with \<open>showHelp\<close> set a frame changes nothing. But that render does not
  last. Pressing the help button while playing changes \<open>showHelp\<close>, a dependency of
  \<open>update\<close> and so of the effect; the effect runs again and calls \<open>initGame\<close>, which
  starts a new game (score 0, full ammo, no missiles, explosions or particles, all
  buildings rebuilt) and clears \<open>showHelp\<close>. So the overlay is closed again when the
  click has been processed, the last-spawn reference is the time of that click because
  the game was restarted, and in no state the component reaches is the loop suspended
  or the close button there to resume it.
\<close>

theorem help_restarts_game:
  "(gameState s = Playing \<and> \<not> showHelp s \<longrightarrow>
      update t (handler OpenHelp s) = handler OpenHelp s \<and>
      deps (handler OpenHelp s) \<noteq> deps s \<and>
      react v OpenHelp s =
        (initGame (innerWidth v) (innerHeight v) s)\<lparr>lastEnemySpawn := now v\<rparr> \<and>
      \<not> showHelp (react v OpenHelp s) \<and>
      gameState (react v OpenHelp s) = Playing \<and>
      score (react v OpenHelp s) = 0 \<and>
      ammo (react v OpenHelp s) = INITIAL_AMMO \<and>
      missiles (react v OpenHelp s) = [] \<and>
      explosions (react v OpenHelp s) = [] \<and>
      particles (react v OpenHelp s) = [] \<and>
      buildings (react v OpenHelp s) = layout (innerWidth v) (innerHeight v) \<and>
      lastEnemySpawn (react v OpenHelp s) = now v) \<and>
   (reachable s \<longrightarrow> \<not> showHelp s \<and> \<not> enabled CloseHelp s)"
proof (intro conjI impI)
  assume a: "gameState s = Playing \<and> \<not> showHelp s"
  then have r: "react v OpenHelp s =
        (initGame (innerWidth v) (innerHeight v) s)\<lparr>lastEnemySpawn := now v\<rparr>"
    by (simp add: react_OpenHelp)
  show "react v OpenHelp s =
        (initGame (innerWidth v) (innerHeight v) s)\<lparr>lastEnemySpawn := now v\<rparr>"
    by (rule r)
  show "update t (handler OpenHelp s) = handler OpenHelp s" by (simp add: update_def)
  show "deps (handler OpenHelp s) \<noteq> deps s" using a by (simp add: deps_def)
  show "\<not> showHelp (react v OpenHelp s)" by (simp add: r initGame_def)
  show "gameState (react v OpenHelp s) = Playing" using a by (simp add: r initGame_def)
  show "score (react v OpenHelp s) = 0" by (simp add: r initGame_def)
  show "ammo (react v OpenHelp s) = INITIAL_AMMO" by (simp add: r initGame_def)
  show "missiles (react v OpenHelp s) = []" by (simp add: r initGame_def)
  show "explosions (react v OpenHelp s) = []" by (simp add: r initGame_def)
  show "particles (react v OpenHelp s) = []" by (simp add: r initGame_def)
  show "buildings (react v OpenHelp s) = layout (innerWidth v) (innerHeight v)"
    by (simp add: r initGame_def)
  show "lastEnemySpawn (react v OpenHelp s) = now v" by (simp add: r)
next
  assume "reachable s"
  then show "\<not> showHelp s" by (rule reachable_help_closed)
next
  assume "reachable s"
  then show "\<not> enabled CloseHelp s" using reachable_help_closed by simp
qed

theorem help_restarts_game_witness:
  "gameState catchGame = Playing \<and> \<not> showHelp catchGame \<and> enabled OpenHelp catchGame \<and>
   missiles catchGame = [raider] \<and> explosions catchGame = [blast0] \<and>
   buildings catchGame = buildings leftDown \<and>
   showHelp (handler OpenHelp catchGame) \<and>
   update 5016 (handler OpenHelp catchGame) = handler OpenHelp catchGame \<and>
   \<not> showHelp (react env0 OpenHelp catchGame) \<and>
   missiles (react env0 OpenHelp catchGame) = [] \<and>
   explosions (react env0 OpenHelp catchGame) = [] \<and>
   buildings (react env0 OpenHelp catchGame) = layout 1000 600 \<and>
   lastEnemySpawn (react env0 OpenHelp catchGame) = 0 \<and>
   reachable (react env0 PressPlay (initialApp 1000 600 (\<lambda>i. draw_half))) \<and>
   \<not> showHelp (react env0 PressPlay (initialApp 1000 600 (\<lambda>i. draw_half))) \<and>
   \<not> enabled CloseHelp (react env0 PressPlay (initialApp 1000 600 (\<lambda>i. draw_half)))"
proof -
  let ?i = "initialApp 1000 600 (\<lambda>i. draw_half)"
  have h: "gameState catchGame = Playing \<and> \<not> showHelp catchGame"
    by (simp add: catchGame_fields)
  have en: "enabled OpenHelp catchGame" using h by simp
  have sh: "showHelp (handler OpenHelp catchGame)" by simp
  have v: "innerWidth env0 = 1000" "innerHeight env0 = 600" "now env0 = 0"
    by (simp_all add: env0_def)
  note t = help_restarts_game [of catchGame 5016 env0]
  have 1: "update 5016 (handler OpenHelp catchGame) = handler OpenHelp catchGame \<and>
     \<not> showHelp (react env0 OpenHelp catchGame) \<and>
     missiles (react env0 OpenHelp catchGame) = [] \<and>
     explosions (react env0 OpenHelp catchGame) = [] \<and>
     buildings (react env0 OpenHelp catchGame) = layout (innerWidth env0) (innerHeight env0) \<and>
     lastEnemySpawn (react env0 OpenHelp catchGame) = now env0"
    using t h by blast
  have r: "reachable (react env0 PressPlay ?i)"
    by (rule reachable.step [OF reachable.init]) (simp add: initialApp_def)
  have 2: "\<not> showHelp (react env0 PressPlay ?i) \<and> \<not> enabled CloseHelp (react env0 PressPlay ?i)"
    using help_restarts_game [of "react env0 PressPlay ?i" 0 env0] r by blast
  show ?thesis
    using h en catchGame_fields(6,7,8) sh 1 r 2 by (simp add: v)
qed

section \<open>Phase transitions\<close>















end
